theory Spec2Isabelle
  imports Complex_Main "HOL-Library.Word" "HOL-Library.Sublist"
begin

unbundle bit_operations_syntax

section \<open>Numbers and arrays\<close>

text \<open>
  A float64 is modelled as an exact real number, or one of the three special values that
  NumPy produces instead of raising: dividing by zero, taking the logarithm of zero and
  leaving the range only emit a RuntimeWarning and the computation goes on with \<open>inf\<close>
  or \<open>nan\<close>. An arithmetic result overflows to the infinity of its sign once its
  magnitude reaches \<open>float_overflow\<close>, the point halfway between the largest finite
  float64 and \<open>2 ^ 1024\<close>, from which rounding to nearest yields infinity. Rounding inside the range
  (gradual underflow included) and the sign of zero are outside the model; a zero divisor is
  read as \<open>+0.0\<close>, which is what a norm or an absolute value yields.
\<close>

datatype fl = Fin real | PInf | NInf | NaN

definition max_float :: real where
  "max_float = 2 ^ 1024 - 2 ^ 971"

definition float_overflow :: real where
  "float_overflow = 2 ^ 1024 - 2 ^ 970"

text \<open>The float64 that the exact result \<open>x\<close> of an operation becomes.\<close>

definition f64 :: "real \<Rightarrow> fl" where
  "f64 x =
     (if float_overflow \<le> x then PInf else if x \<le> - float_overflow then NInf else Fin x)"

text \<open>
  A real number that enters a computation (an entry of a data file, \<open>sigma\<close>, a random
  draw) is a finite float64; a real beyond the range stands for the extreme of the range.
\<close>

definition fl_of_real :: "real \<Rightarrow> fl" where
  "fl_of_real r = Fin (max (- max_float) (min max_float r))"

fun is_fin :: "fl \<Rightarrow> bool" where
  "is_fin (Fin x) = True"
| "is_fin _ = False"

fun fl_neg :: "fl \<Rightarrow> fl" where
  "fl_neg (Fin x) = Fin (- x)"
| "fl_neg PInf = NInf"
| "fl_neg NInf = PInf"
| "fl_neg NaN = NaN"

fun fl_abs :: "fl \<Rightarrow> fl" where
  "fl_abs (Fin x) = Fin \<bar>x\<bar>"
| "fl_abs PInf = PInf"
| "fl_abs NInf = PInf"
| "fl_abs NaN = NaN"

fun fl_add :: "fl \<Rightarrow> fl \<Rightarrow> fl" where
  "fl_add (Fin a) (Fin b) = f64 (a + b)"
| "fl_add NaN y = NaN"
| "fl_add x NaN = NaN"
| "fl_add PInf NInf = NaN"
| "fl_add NInf PInf = NaN"
| "fl_add PInf y = PInf"
| "fl_add x PInf = PInf"
| "fl_add NInf y = NInf"
| "fl_add x NInf = NInf"

definition fl_sub :: "fl \<Rightarrow> fl \<Rightarrow> fl" where
  "fl_sub x y = fl_add x (fl_neg y)"

text \<open>The sign of a value that is not \<open>nan\<close>: \<open>-1\<close>, \<open>0\<close> or \<open>1\<close>.\<close>

fun fl_sgn :: "fl \<Rightarrow> int" where
  "fl_sgn (Fin x) = (if x < 0 then - 1 else if x = 0 then 0 else 1)"
| "fl_sgn PInf = 1"
| "fl_sgn NInf = - 1"
| "fl_sgn NaN = 0"

definition signed_inf :: "int \<Rightarrow> fl" where
  "signed_inf s = (if s = 0 then NaN else if 0 < s then PInf else NInf)"

fun fl_mul :: "fl \<Rightarrow> fl \<Rightarrow> fl" where
  "fl_mul (Fin a) (Fin b) = f64 (a * b)"
| "fl_mul NaN y = NaN"
| "fl_mul x NaN = NaN"
| "fl_mul x y = signed_inf (fl_sgn x * fl_sgn y)"

fun fl_div :: "fl \<Rightarrow> fl \<Rightarrow> fl" where
  "fl_div (Fin a) (Fin b) =
     (if b = 0 then signed_inf (fl_sgn (Fin a)) else f64 (a / b))"
| "fl_div NaN y = NaN"
| "fl_div x NaN = NaN"
| "fl_div (Fin a) y = Fin 0"
| "fl_div x (Fin b) = (if b < 0 then fl_neg x else x)"
| "fl_div x y = NaN"

fun fl_sqrt :: "fl \<Rightarrow> fl" where
  "fl_sqrt (Fin x) = (if x < 0 then NaN else Fin (sqrt x))"
| "fl_sqrt PInf = PInf"
| "fl_sqrt NInf = NaN"
| "fl_sqrt NaN = NaN"

text \<open>\<open>np.log\<close>: the natural logarithm.\<close>

fun fl_log :: "fl \<Rightarrow> fl" where
  "fl_log (Fin x) = (if x < 0 then NaN else if x = 0 then NInf else Fin (ln x))"
| "fl_log PInf = PInf"
| "fl_log NInf = NaN"
| "fl_log NaN = NaN"

fun fl_lt :: "fl \<Rightarrow> fl \<Rightarrow> bool" where
  "fl_lt (Fin a) (Fin b) = (a < b)"
| "fl_lt NaN y = False"
| "fl_lt x NaN = False"
| "fl_lt x NInf = False"
| "fl_lt PInf y = False"
| "fl_lt x y = True"

fun fl_eq :: "fl \<Rightarrow> fl \<Rightarrow> bool" where
  "fl_eq NaN y = False"
| "fl_eq x NaN = False"
| "fl_eq x y = (x = y)"

text \<open>\<open>np.maximum\<close> and \<open>np.minimum\<close> of two values: a \<open>nan\<close> is propagated.\<close>

definition fl_max :: "fl \<Rightarrow> fl \<Rightarrow> fl" where
  "fl_max x y = (if x = NaN \<or> y = NaN then NaN else if fl_lt x y then y else x)"

definition fl_min :: "fl \<Rightarrow> fl \<Rightarrow> fl" where
  "fl_min x y = (if x = NaN \<or> y = NaN then NaN else if fl_lt y x then y else x)"

text \<open>
  A complex128 is a pair of float64 (real part, imaginary part); NumPy multiplies two of
  them by the textbook formula, whose products and sums can overflow one by one, and
  \<open>np.abs\<close> is \<open>hypot\<close>, which overflows only when the modulus itself does.
\<close>

type_synonym cfl = "fl \<times> fl"

definition c_of_fl :: "fl \<Rightarrow> cfl" where
  "c_of_fl x = (x, Fin 0)"

definition c_of_complex :: "complex \<Rightarrow> cfl" where
  "c_of_complex z = (fl_of_real (Re z), fl_of_real (Im z))"

fun c_add :: "cfl \<Rightarrow> cfl \<Rightarrow> cfl" where
  "c_add (a, b) (c, d) = (fl_add a c, fl_add b d)"

fun c_mul :: "cfl \<Rightarrow> cfl \<Rightarrow> cfl" where
  "c_mul (a, b) (c, d) =
     (fl_sub (fl_mul a c) (fl_mul b d), fl_add (fl_mul a d) (fl_mul b c))"

fun c_abs :: "cfl \<Rightarrow> fl" where
  "c_abs (Fin a, Fin b) = f64 (sqrt (a * a + b * b))"
| "c_abs (a, b) = (if a = PInf \<or> a = NInf \<or> b = PInf \<or> b = NInf then PInf else NaN)"

text \<open>
  A two-dimensional ndarray is the list of its rows. NumPy arrays are rectangular;
  \<open>rect\<close> says so of a list of rows.
\<close>

type_synonym 'a array = "'a list list"

definition shape :: "'a array \<Rightarrow> nat \<times> nat" where
  "shape a = (length a, if a = [] then 0 else length (hd a))"

definition rect :: "'a array \<Rightarrow> bool" where
  "rect a = list_all (\<lambda>r. length r = snd (shape a)) a"

definition amap :: "('a \<Rightarrow> 'b) \<Rightarrow> 'a array \<Rightarrow> 'b array" where
  "amap f a = map (map f) a"

text \<open>What the library and the module can raise.\<close>

datatype error =
    ValueError string        \<comment> \<open>a \<open>raise ValueError\<close> of the module itself, with its message\<close>
  | IOError string           \<comment> \<open>a data file that cannot be read\<close>
  | KeyError string          \<comment> \<open>a variable missing from a matrix file\<close>
  | IndexError               \<comment> \<open>an index beyond the size of an axis\<close>
  | EmptyReduction           \<comment> \<open>what NumPy raises for \<open>max\<close> or \<open>min\<close> of a zero-size array\<close>
  | BroadcastError           \<comment> \<open>what NumPy raises for operands of incompatible shapes\<close>
  | LibraryError string      \<comment> \<open>a failure inside the named function of another package\<close>

text \<open>An exception ends the computation: the rest runs only on a value.\<close>

definition bindE :: "error + 'a \<Rightarrow> ('a \<Rightarrow> error + 'b) \<Rightarrow> error + 'b" where
  "bindE m f = (case m of Inl e \<Rightarrow> Inl e | Inr x \<Rightarrow> f x)"

text \<open>\<open>a.max()\<close> and \<open>a.min()\<close> over all the entries.\<close>

definition np_max :: "fl array \<Rightarrow> error + fl" where
  "np_max a = (case concat a of [] \<Rightarrow> Inl EmptyReduction | x # xs \<Rightarrow> Inr (foldl fl_max x xs))"

definition np_min :: "fl array \<Rightarrow> error + fl" where
  "np_min a = (case concat a of [] \<Rightarrow> Inl EmptyReduction | x # xs \<Rightarrow> Inr (foldl fl_min x xs))"

text \<open>\<open>np.linalg.norm\<close> with its defaults: the square root of the sum of the squared moduli.\<close>

definition fl_sum :: "fl list \<Rightarrow> fl" where
  "fl_sum xs = foldl fl_add (Fin 0) xs"

definition norm_real :: "fl array \<Rightarrow> fl" where
  "norm_real a = fl_sqrt (fl_sum (map (\<lambda>x. fl_mul x x) (concat a)))"

definition norm_complex :: "cfl array \<Rightarrow> fl" where
  "norm_complex a =
     fl_sqrt (fl_sum (map (\<lambda>z. fl_add (fl_mul (fst z) (fst z)) (fl_mul (snd z) (snd z))) (concat a)))"

section \<open>The normalisation helpers\<close>

text \<open>\<open>_l2_normalize\<close>: \<open>x / np.linalg.norm(x)\<close>.\<close>

definition l2_normalize :: "fl array \<Rightarrow> fl array" where
  "l2_normalize x = amap (\<lambda>v. fl_div v (norm_real x)) x"

text \<open>
  \<open>_normalize_localisations\<close>. The assignment \<open>loc[loc == Kmax] = -Kmax\<close> writes into the
  argument; the model returns the value of the function only.
\<close>

definition normalize_localisations :: "fl array \<Rightarrow> error + fl array" where
  "normalize_localisations loc =
     bindE (np_max loc) (\<lambda>Kmax.
     bindE (np_min loc) (\<lambda>Kmin.
       if fl_lt Kmax (fl_abs Kmin)
       then Inr (amap (\<lambda>v. fl_div v (fl_mul (Fin 2) (fl_abs Kmin))) loc)
       else Inr (amap (\<lambda>v. fl_div v (fl_mul (Fin 2) (fl_abs Kmax)))
                   (amap (\<lambda>v. if fl_eq v Kmax then fl_neg Kmax else v) loc))))"

section \<open>Elementwise operations\<close>

text \<open>
  A binary operator on two arrays follows NumPy's broadcasting: the sizes of an axis must
  be equal, or one of them is 1 and that operand is repeated along the axis.
\<close>

definition broadcastable :: "nat \<Rightarrow> nat \<Rightarrow> bool" where
  "broadcastable m n = (m = n \<or> m = 1 \<or> n = 1)"

definition bdim :: "nat \<Rightarrow> nat \<Rightarrow> nat" where
  "bdim m n = (if m = 1 then n else m)"

definition stretch :: "nat \<Rightarrow> 'a list \<Rightarrow> 'a list" where
  "stretch n xs = (if length xs = 1 then replicate n (hd xs) else xs)"

definition np_binop :: "('a \<Rightarrow> 'b \<Rightarrow> 'c) \<Rightarrow> 'a array \<Rightarrow> 'b array \<Rightarrow> error + 'c array" where
  "np_binop f a b =
     (if broadcastable (fst (shape a)) (fst (shape b)) \<and>
         broadcastable (snd (shape a)) (snd (shape b))
      then Inr (map2 (\<lambda>r s. map2 f (stretch (bdim (snd (shape a)) (snd (shape b))) r)
                                    (stretch (bdim (snd (shape b)) (snd (shape a))) s))
                  (stretch (bdim (fst (shape a)) (fst (shape b))) a)
                  (stretch (bdim (fst (shape b)) (fst (shape a))) b))
      else Inl BroadcastError)"

section \<open>Files, library functions and the trace of file reads\<close>

text \<open>
  The data directory and the functions of other packages are the environment of a call.
  A matrix file maps variable names to arrays; the bundled files hold real arrays (image,
  mask, sample coordinates) and complex arrays (k-space values), and an image file holds
  rows of pixels, a pixel being the list of its 8-bit channels. Files are named relative
  to the data directory. A function of another package that fails returns \<open>None\<close>.
  \<open>randn\<close> is the sequence of standard normal draws that the generator delivers.
\<close>

record env =
  real_mats :: "string \<rightharpoonup> (string \<rightharpoonup> real array)"
  complex_mats :: "string \<rightharpoonup> (string \<rightharpoonup> complex array)"
  images :: "string \<rightharpoonup> 8 word list array"
  fft2 :: "fl array \<Rightarrow> cfl array option"
  ifftshift :: "real array \<Rightarrow> real array option"
  convert_mask_to_locations :: "real array \<Rightarrow> fl array option"
  randn :: "nat \<Rightarrow> real"

text \<open>
  A computation yields the list of the files it has read, in order, and either the
  exception that ended it or its value.
\<close>

type_synonym 'a io = "string list \<times> (error + 'a)"

definition ret :: "'a \<Rightarrow> 'a io" where
  "ret x = ([], Inr x)"

definition raise :: "error \<Rightarrow> 'a io" where
  "raise e = ([], Inl e)"

definition lift :: "error + 'a \<Rightarrow> 'a io" where
  "lift r = ([], r)"

definition bindIO :: "'a io \<Rightarrow> ('a \<Rightarrow> 'b io) \<Rightarrow> 'b io" where
  "bindIO m f =
     (case snd m of
        Inl e \<Rightarrow> (fst m, Inl e)
      | Inr x \<Rightarrow> (fst m @ fst (f x), snd (f x)))"

definition call :: "string \<Rightarrow> 'a option \<Rightarrow> 'a io" where
  "call name r = (case r of None \<Rightarrow> raise (LibraryError name) | Some x \<Rightarrow> ret x)"

text \<open>\<open>loadmat(path)[key]\<close> on a file of real arrays, and on a file of complex arrays.\<close>

definition lookup_var :: "string \<Rightarrow> string \<Rightarrow> (string \<rightharpoonup> (string \<rightharpoonup> 'a)) \<Rightarrow> error + 'a" where
  "lookup_var file key files =
     (case files file of
        None \<Rightarrow> Inl (IOError file)
      | Some vars \<Rightarrow> (case vars key of None \<Rightarrow> Inl (KeyError key) | Some a \<Rightarrow> Inr a))"

definition loadmat_real :: "env \<Rightarrow> string \<Rightarrow> string \<Rightarrow> real array io" where
  "loadmat_real e file key = ([file], lookup_var file key (real_mats e))"

definition loadmat_complex :: "env \<Rightarrow> string \<Rightarrow> string \<Rightarrow> complex array io" where
  "loadmat_complex e file key = ([file], lookup_var file key (complex_mats e))"

text \<open>\<open>misc.imread(path)\<close>.\<close>

definition imread :: "env \<Rightarrow> string \<Rightarrow> 8 word list array io" where
  "imread e file =
     ([file], case images e file of None \<Rightarrow> Inl (IOError file) | Some img \<Rightarrow> Inr img)"

text \<open>\<open>img[:,:,0]\<close>: an image without channels has no index 0 on its last axis.\<close>

definition first_channel :: "8 word list array \<Rightarrow> error + 8 word array" where
  "first_channel img =
     (if list_ex (list_ex (\<lambda>px. px = [])) img then Inl IndexError else Inr (amap hd img))"

text \<open>\<open>np.fliplr\<close> reverses every row; \<open>np.rot90\<close> is the transpose of that.\<close>

definition fliplr :: "'a array \<Rightarrow> 'a array" where
  "fliplr m = map rev m"

definition rot90 :: "'a array \<Rightarrow> 'a array" where
  "rot90 m = transpose (fliplr m)"

section \<open>Python values and messages\<close>

datatype pyval = PyNone | PyInt int | PyFloat fl | PyStr string

fun nat_digits :: "nat \<Rightarrow> string" where
  "nat_digits n =
     (if n < 10 then [''0123456789'' ! n]
      else nat_digits (n div 10) @ [''0123456789'' ! (n mod 10)])"

declare nat_digits.simps [simp del]

definition str_int :: "int \<Rightarrow> string" where
  "str_int i = (if i < 0 then ''-'' @ nat_digits (nat (- i)) else nat_digits (nat i))"

text \<open>\<open>"{0}".format(acc_factor)\<close> for \<open>None\<close> or an integer.\<close>

definition format_acc :: "int option \<Rightarrow> string" where
  "format_acc a = (case a of None \<Rightarrow> ''None'' | Some i \<Rightarrow> str_int i)"

definition msg_cartesian :: "int option \<Rightarrow> string" where
  "msg_cartesian a =
     ''acc_factor should be None if mask_type='cartesianR4', got '' @ format_acc a"

definition msg_acc :: "int option \<Rightarrow> string" where
  "msg_acc a = ''acc_factor should be in [8, 15], got '' @ format_acc a"

text \<open>
  The third message continues over three source lines inside the string literal, so the
  indentation of the continuation lines (25 spaces) is part of it.
\<close>

definition msg_type :: "string \<Rightarrow> string" where
  "msg_type t =
     ''type_mask not understood, got '' @ t @ '' in stead of '' @ replicate 25 CHR '' '' @
     [CHR 0x27] @ ''cartesianR4', 'radial-sparkling', '' @ replicate 25 CHR '' '' @
     [CHR 0x27] @ ''radial'' @ [CHR 0x27]"

section \<open>The dataset loader\<close>

text \<open>Lines 85 to 88: the reference image, divided by its norm.\<close>

definition load_ref :: "env \<Rightarrow> fl array io" where
  "load_ref e =
     bindIO (loadmat_real e ''Ref_babouin_NEX32.mat'' ''im_ref'') (\<lambda>im.
     ret (l2_normalize (amap fl_of_real im)))"

text \<open>
  The four lines that each radial and sparkling branch repeats with its own two files:
  the normalised sample coordinates and the k-space values as stored.
\<close>

definition load_samples_values :: "env \<Rightarrow> string \<Rightarrow> string \<Rightarrow> (fl array \<times> cfl array) io" where
  "load_samples_values e maskfile kspacefile =
     bindIO (loadmat_real e maskfile ''samples'') (\<lambda>samples.
     bindIO (lift (normalize_localisations (amap fl_of_real samples))) (\<lambda>loc.
     bindIO (loadmat_complex e kspacefile ''values'') (\<lambda>vals.
     ret (loc, amap c_of_complex vals))))"

text \<open>Lines 90 to 147: the branch on \<open>mask_type\<close> and \<open>acc_factor\<close>.\<close>

definition load_loc_kspace ::
  "env \<Rightarrow> fl array \<Rightarrow> string \<Rightarrow> int option \<Rightarrow> (fl array \<times> cfl array) io" where
  "load_loc_kspace e ref mask_type acc_factor =
     (if mask_type = ''cartesianR4'' then
        (if acc_factor \<noteq> None then raise (ValueError (msg_cartesian acc_factor))
         else
           bindIO (loadmat_real e ''mask_BrainPhantom512_R4.mat'' ''mask'') (\<lambda>m.
           bindIO (call ''ifftshift'' (ifftshift e m)) (\<lambda>mask.
           bindIO (call ''convert_mask_to_locations'' (convert_mask_to_locations e mask)) (\<lambda>loc.
           bindIO (call ''fft2'' (fft2 e ref)) (\<lambda>f.
           bindIO (lift (np_binop (\<lambda>x z. c_mul (c_of_fl (fl_of_real x)) z) mask f)) (\<lambda>kspace.
           ret (loc, kspace)))))))
      else if mask_type = ''radial'' then
        (if acc_factor = Some 8 then
           load_samples_values e ''samples_radial_x8_64x3072.mat'' ''values_radial_x8_64x3072.mat''
         else if acc_factor = Some 15 then
           load_samples_values e ''samples_radial_x15_34x3072.mat'' ''values_radial_x15_34x3072.mat''
         else raise (ValueError (msg_acc acc_factor)))
      else if mask_type = ''radial-sparkling'' then
        (if acc_factor = Some 8 then
           load_samples_values e ''samples_sparkling_x8_64x3072.mat''
             ''values_sparkling_x8_64x3072.mat''
         else if acc_factor = Some 15 then
           load_samples_values e ''samples_sparkling_x15_34x3072.mat''
             ''values_sparkling_x15_34x3072.mat''
         else raise (ValueError (msg_acc acc_factor)))
      else raise (ValueError (msg_type mask_type)))"

text \<open>
  Lines 85 to 147 together: the normalised reference image, the sampling locations and
  the k-space data before any noise is added.
\<close>

definition load_before_noise ::
  "env \<Rightarrow> string \<Rightarrow> int option \<Rightarrow> (fl array \<times> fl array \<times> cfl array) io" where
  "load_before_noise e mask_type acc_factor =
     bindIO (load_ref e) (\<lambda>ref.
     bindIO (load_loc_kspace e ref mask_type acc_factor) (\<lambda>lk.
     ret (ref, fst lk, snd lk)))"

text \<open>
  \<open>randn(m, n)\<close> takes the next \<open>m * n\<close> draws, here from position \<open>k\<close> on, row by row.
\<close>

definition randn_array :: "env \<Rightarrow> nat \<Rightarrow> nat \<Rightarrow> nat \<Rightarrow> real array" where
  "randn_array e k m n = map (\<lambda>i. map (\<lambda>j. randn e (k + i * n + j)) [0..<n]) [0..<m]"

text \<open>Line 149: \<open>sigma * (randn(*kspace.shape) + 1.j*randn(*kspace.shape))\<close>.\<close>

definition make_noise :: "env \<Rightarrow> real \<Rightarrow> cfl array \<Rightarrow> error + cfl array" where
  "make_noise e sigma kspace =
     bindE (np_binop c_add
              (amap (\<lambda>x. c_of_fl (fl_of_real x))
                 (randn_array e 0 (fst (shape kspace)) (snd (shape kspace))))
              (amap (\<lambda>x. c_mul (Fin 0, Fin 1) (c_of_fl (fl_of_real x)))
                 (randn_array e (fst (shape kspace) * snd (shape kspace))
                    (fst (shape kspace)) (snd (shape kspace)))))
       (\<lambda>z. Inr (amap (\<lambda>v. c_mul (c_of_fl (fl_of_real sigma)) v) z))"

text \<open>Lines 153 and 154: the two ratios, with \<open>np.log\<close>.\<close>

definition snr_of :: "cfl array \<Rightarrow> cfl array \<Rightarrow> fl" where
  "snr_of kspace noise =
     fl_mul (Fin 20) (fl_log (fl_div (norm_complex kspace) (norm_complex noise)))"

definition psnr_of :: "fl \<Rightarrow> cfl array \<Rightarrow> fl" where
  "psnr_of peak noise = fl_mul (Fin 20) (fl_log (fl_div peak (norm_complex noise)))"

text \<open>Lines 162 and 163: bitwise complement, then every nonzero entry set to 1.\<close>

definition binarize :: "8 word array \<Rightarrow> 8 word array" where
  "binarize ch = amap (\<lambda>v. if v \<noteq> 0 then 1 else v) (amap (\<lambda>v. NOT v) ch)"

text \<open>Lines 152 to 154 and 166 to 170: the dictionary of acquisition facts.\<close>

definition make_info ::
  "real \<Rightarrow> fl \<Rightarrow> fl \<Rightarrow> string \<Rightarrow> int option \<Rightarrow> (string \<rightharpoonup> pyval)" where
  "make_info sigma snr psnr mask_type acc_factor =
     [''sigma'' \<mapsto> PyFloat (fl_of_real sigma),
      ''snr'' \<mapsto> PyFloat snr,
      ''psnr'' \<mapsto> PyFloat psnr,
      ''N'' \<mapsto> PyInt 512,
      ''FOV(mm)'' \<mapsto> PyInt 200,
      ''TE(ms)'' \<mapsto> PyInt 30,
      ''TR(ms)'' \<mapsto> PyInt 550,
      ''Tobs(ms)'' \<mapsto> PyFloat (Fin (3072 / 100)),
      ''Angle(degree)'' \<mapsto> PyInt 25,
      ''Slice-thickness(mm)'' \<mapsto> PyInt 3,
      ''Contrast'' \<mapsto> PyStr ''T2*w'',
      ''mask_type'' \<mapsto> PyStr mask_type,
      ''acc_factor'' \<mapsto> (case acc_factor of None \<Rightarrow> PyNone | Some i \<Rightarrow> PyInt i)]"

text \<open>
  The whole function. After the data of the branch: the noise, the two ratios (the peak
  of an empty array raises), the sum, the region-of-interest image, and the result.
\<close>

definition load_exbaboon_512_retrospection ::
  "env \<Rightarrow> real \<Rightarrow> string \<Rightarrow> int option \<Rightarrow>
     (cfl array \<times> fl array \<times> cfl array \<times> 8 word array \<times> (string \<rightharpoonup> pyval)) io" where
  "load_exbaboon_512_retrospection e sigma mask_type acc_factor =
     bindIO (load_before_noise e mask_type acc_factor) (\<lambda>rlk.
     bindIO (lift (make_noise e sigma (snd (snd rlk)))) (\<lambda>noise.
     bindIO (lift (np_max (amap c_abs (snd (snd rlk))))) (\<lambda>peak.
     bindIO (lift (np_binop c_add (snd (snd rlk)) noise)) (\<lambda>kspace.
     bindIO (imread e ''Ref_N512_NEX32_mask.png'') (\<lambda>img.
     bindIO (lift (first_channel img)) (\<lambda>ch.
     ret (amap c_of_fl (fst rlk), fst (snd rlk), kspace, rot90 (fliplr (binarize ch)),
          make_info sigma (snr_of (snd (snd rlk)) noise) (psnr_of peak noise)
            mask_type acc_factor)))))))"

section \<open>Statements of the specification\<close>

text \<open>
  The argument combinations that the specification calls invalid: an unknown mask type, an
  acceleration factor given with \<open>cartesianR4\<close>, or one that is neither 8 nor 15 with
  \<open>radial\<close> or \<open>radial-sparkling\<close>.
\<close>

definition invalid_arguments :: "string \<Rightarrow> int option \<Rightarrow> bool" where
  "invalid_arguments mask_type acc_factor \<longleftrightarrow>
     (mask_type \<noteq> ''cartesianR4'' \<and> mask_type \<noteq> ''radial'' \<and> mask_type \<noteq> ''radial-sparkling'') \<or>
     (mask_type = ''cartesianR4'' \<and> acc_factor \<noteq> None) \<or>
     ((mask_type = ''radial'' \<or> mask_type = ''radial-sparkling'') \<and>
        acc_factor \<noteq> Some 8 \<and> acc_factor \<noteq> Some 15)"

text \<open>The argument that such a call is wrong about, as \<open>format\<close> prints it.\<close>

definition offending_value :: "string \<Rightarrow> int option \<Rightarrow> string" where
  "offending_value mask_type acc_factor =
     (if mask_type = ''cartesianR4'' \<or> mask_type = ''radial'' \<or> mask_type = ''radial-sparkling''
      then format_acc acc_factor else mask_type)"

text \<open>The message of the \<open>raise\<close> statement that the branch of \<open>mask_type\<close> holds.\<close>

definition raised_message :: "string \<Rightarrow> int option \<Rightarrow> string" where
  "raised_message mask_type acc_factor =
     (if mask_type = ''cartesianR4'' then msg_cartesian acc_factor
      else if mask_type = ''radial'' \<or> mask_type = ''radial-sparkling'' then msg_acc acc_factor
      else msg_type mask_type)"

text \<open>
  The orientation that the specification describes for the region-of-interest mask: a
  rotation by 180 degrees (both axes reversed), then a horizontal mirror (every row
  reversed), applied to the inverted and binarised first channel.
\<close>

definition spec_rot180 :: "'a array \<Rightarrow> 'a array" where
  "spec_rot180 m = rev (map rev m)"

definition spec_binary_roi_mask :: "8 word list array \<Rightarrow> 8 word array" where
  "spec_binary_roi_mask img = map rev (spec_rot180 (binarize (amap hd img)))"

section \<open>Auxiliary notions\<close>

text \<open>The real number that a finite float64 stands for.\<close>

fun fin_val :: "fl \<Rightarrow> real" where
  "fin_val (Fin x) = x"
| "fin_val _ = 0"

text \<open>
  What \<open>_normalize_localisations\<close> does to one finite entry \<open>r\<close> of an array whose
  maximum is \<open>M\<close> and whose minimum is \<open>m\<close>.
\<close>

definition norm_loc_real :: "real \<Rightarrow> real \<Rightarrow> real \<Rightarrow> real" where
  "norm_loc_real M m r =
     (if M < \<bar>m\<bar> then r / (2 * \<bar>m\<bar>) else (if r = M then - M else r) / (2 * \<bar>M\<bar>))"

text \<open>
  The same with the overflow of the divisor \<open>2 * abs(K)\<close>: every entry divided by infinity
  is zero.
\<close>

definition norm_loc_out :: "real \<Rightarrow> real \<Rightarrow> real \<Rightarrow> real" where
  "norm_loc_out M m r =
     (if float_overflow \<le> 2 * (if M < \<bar>m\<bar> then \<bar>m\<bar> else \<bar>M\<bar>) then 0 else norm_loc_real M m r)"

text \<open>
  An exact result that stays inside the range, and a positive one well inside the normal
  range, of which the computed result is the rounding also after many additions.
\<close>

definition in_range :: "real \<Rightarrow> bool" where
  "in_range x \<longleftrightarrow> \<bar>x\<bar> < float_overflow"

definition normal_range :: "real \<Rightarrow> bool" where
  "normal_range x \<longleftrightarrow> 1 / 2 ^ 1022 \<le> x \<and> x < 2 ^ 1023"

text \<open>A float64 as the operations deliver it: a finite one lies inside the range.\<close>

fun fl_valid :: "fl \<Rightarrow> bool" where
  "fl_valid (Fin a) = (\<bar>a\<bar> < float_overflow)"
| "fl_valid _ = True"

text \<open>A complex number with finite parts as a complex128.\<close>

definition c_fin :: "complex \<Rightarrow> cfl" where
  "c_fin z = (Fin (Re z), Fin (Im z))"

text \<open>The sum of the squared moduli of a complex array.\<close>

definition sum_sq :: "complex array \<Rightarrow> real" where
  "sum_sq a = (\<Sum>z\<leftarrow>concat a. Re z * Re z + Im z * Im z)"

text \<open>The complex array of the given shape whose entries are all zero.\<close>

definition zeros :: "nat \<times> nat \<Rightarrow> cfl array" where
  "zeros s = replicate (fst s) (replicate (snd s) (Fin 0, Fin 0))"

section \<open>A small data directory\<close>

text \<open>
  A directory with tiny arrays in place of the bundled ones, on which the loader can be
  run by hand: a 1 by 2 reference image and mask, two sample coordinates, one k-space
  value for the factor 8 and two for the factor 15, and a 2 by 2 image of three channels.
  The transform is the discrete Fourier transform of a 1 by 2 array (the sum and the
  difference of its two entries), the shift rotates every row by half its length, the
  conversion gives the location of the one sampled point, and the generator delivers
  1, 0, 0, ...
\<close>

definition demo_env :: env where
  "demo_env = \<lparr>
     real_mats =
       [''Ref_babouin_NEX32.mat'' \<mapsto> [''im_ref'' \<mapsto> [[0, 2]]],
        ''mask_BrainPhantom512_R4.mat'' \<mapsto> [''mask'' \<mapsto> [[0, 1]]],
        ''samples_radial_x8_64x3072.mat'' \<mapsto> [''samples'' \<mapsto> [[1, - 2]]],
        ''samples_radial_x15_34x3072.mat'' \<mapsto> [''samples'' \<mapsto> [[1, - 2]]]],
     complex_mats =
       [''values_radial_x8_64x3072.mat'' \<mapsto> [''values'' \<mapsto> [[Complex 0 2]]],
        ''values_radial_x15_34x3072.mat'' \<mapsto> [''values'' \<mapsto> [[Complex 9 12, Complex 8 0]]]],
     images =
       [''Ref_N512_NEX32_mask.png'' \<mapsto>
          [[[255, 255, 255], [0, 0, 0]], [[255, 255, 255], [255, 255, 255]]]],
     fft2 = (\<lambda>a. case a of
               [[x, y]] \<Rightarrow> Some [[(fl_add x y, Fin 0), (fl_sub x y, Fin 0)]]
             | _ \<Rightarrow> None),
     ifftshift = (\<lambda>a. Some (map (\<lambda>r. rotate (length r div 2) r) a)),
     convert_mask_to_locations = (\<lambda>a. Some [[Fin (- (1/2)), Fin (- (1/2))]]),
     randn = (\<lambda>i. if i = 0 then 1 else 0) \<rparr>"

text \<open>The same directory with a reference image whose squares leave the float64 range.\<close>

definition overflow_env :: env where
  "overflow_env = demo_env \<lparr>
     real_mats := (real_mats demo_env)
       (''Ref_babouin_NEX32.mat'' \<mapsto> [''im_ref'' \<mapsto> [[2 ^ 700, 2 ^ 700]]]) \<rparr>"

section \<open>Basic facts\<close>

lemma bindE_simps [simp]: "bindE (Inl e) f = Inl e" "bindE (Inr x) f = f x"
  by (simp_all add: bindE_def)

lemma float_overflow_large: "2 ^ 1023 < float_overflow"
  by (simp add: float_overflow_def)

lemma float_overflow_gt: "100000 < float_overflow"
  using float_overflow_large by (rule less_trans[rotated]) simp

lemma max_float_below: "max_float < float_overflow"
  by (simp add: max_float_def float_overflow_def)

lemma max_float_large: "2 ^ 1023 \<le> max_float"
  by (simp add: max_float_def)

lemma max_float_gt: "100000 \<le> max_float"
  using max_float_large by (rule order_trans[rotated]) simp

lemma f64_in_range: "\<bar>x\<bar> < float_overflow \<Longrightarrow> f64 x = Fin x"
  by (auto simp: f64_def)

lemma f64_small: "\<bar>x\<bar> \<le> 100000 \<Longrightarrow> f64 x = Fin x"
  using float_overflow_gt by (intro f64_in_range) linarith

lemma f64_valid: "fl_valid (f64 x)"
  by (auto simp: f64_def)

lemma f64_overflow: "float_overflow \<le> x \<Longrightarrow> f64 x = PInf"
  by (simp add: f64_def)

lemma fl_of_real_id: "\<bar>r\<bar> \<le> max_float \<Longrightarrow> fl_of_real r = Fin r"
  by (auto simp: fl_of_real_def)

lemma fl_of_real_small: "\<bar>r\<bar> \<le> 100000 \<Longrightarrow> fl_of_real r = Fin r"
  using max_float_gt by (intro fl_of_real_id) linarith

lemma fl_of_real_valid: "fl_valid (fl_of_real r)"
proof -
  have "0 < max_float" using max_float_gt by linarith
  then have "\<bar>max (- max_float) (min max_float r)\<bar> \<le> max_float" by auto
  then show ?thesis using max_float_below by (simp add: fl_of_real_def)
qed

lemma fl_of_real_fin: "\<exists>x. fl_of_real r = Fin x \<and> \<bar>x\<bar> < float_overflow"
  using fl_of_real_valid[of r] by (simp add: fl_of_real_def)

lemma concat_amap: "concat (amap f a) = map f (concat a)"
  by (simp add: amap_def map_concat)

lemma all_fin_conv: "(\<forall>v\<in>set xs. is_fin v) \<Longrightarrow> xs = map Fin (map fin_val xs)"
proof (induction xs)
  case Nil then show ?case by simp
next
  case (Cons a xs)
  then show ?case by (cases a) auto
qed

lemma foldl_fl_max_fin: "foldl fl_max (Fin x) (map Fin xs) = Fin (foldl max x xs)"
  by (induction xs arbitrary: x) (auto simp: fl_max_def max_def)

lemma foldl_fl_min_fin: "foldl fl_min (Fin x) (map Fin xs) = Fin (foldl min x xs)"
  by (induction xs arbitrary: x) (auto simp: fl_min_def min_def)

lemma foldl_max_Max: "foldl max (x::real) xs = Max (set (x # xs))"
proof (induction xs arbitrary: x)
  case Nil then show ?case by simp
next
  case (Cons a xs)
  have "foldl max x (a # xs) = Max (insert (max x a) (set xs))" using Cons[of "max x a"] by simp
  also have "\<dots> = Max (set (x # a # xs))"
    by (cases "set xs = {}") (simp_all add: max.assoc)
  finally show ?case .
qed

lemma foldl_min_Min: "foldl min (x::real) xs = Min (set (x # xs))"
proof (induction xs arbitrary: x)
  case Nil then show ?case by simp
next
  case (Cons a xs)
  have "foldl min x (a # xs) = Min (insert (min x a) (set xs))" using Cons[of "min x a"] by simp
  also have "\<dots> = Min (set (x # a # xs))"
    by (cases "set xs = {}") (simp_all add: min.assoc)
  finally show ?case .
qed

lemma np_max_fin:
  assumes "concat a = map Fin rs" "rs \<noteq> []"
  shows "np_max a = Inr (Fin (Max (set rs)))"
proof -
  obtain r rs' where rs: "rs = r # rs'" using assms(2) by (cases rs) auto
  show ?thesis
    unfolding np_max_def assms(1) rs
    by (simp only: list.map list.case foldl_fl_max_fin foldl_max_Max)
qed

lemma np_min_fin:
  assumes "concat a = map Fin rs" "rs \<noteq> []"
  shows "np_min a = Inr (Fin (Min (set rs)))"
proof -
  obtain r rs' where rs: "rs = r # rs'" using assms(2) by (cases rs) auto
  show ?thesis
    unfolding np_min_def assms(1) rs
    by (simp only: list.map list.case foldl_fl_min_fin foldl_min_Min)
qed

lemma amap_id: "(\<forall>v\<in>set (concat a). f v = v) \<Longrightarrow> amap f a = a"
  unfolding amap_def by (induction a) (auto simp: map_idI)

lemma norm_loc_real_range:
  assumes nz: "\<exists>r\<in>set rs. r \<noteq> 0" and r: "r \<in> set rs"
  shows "- (1/2) \<le> norm_loc_real (Max (set rs)) (Min (set rs)) r \<and>
         norm_loc_real (Max (set rs)) (Min (set rs)) r < 1/2"
proof -
  let ?M = "Max (set rs)" and ?m = "Min (set rs)"
  from nz have ne: "rs \<noteq> []" by auto
  have bounds: "\<And>r. r \<in> set rs \<Longrightarrow> ?m \<le> r \<and> r \<le> ?M" by simp
  have Min': "?m \<in> set rs" and Max': "?M \<in> set rs" using ne by simp_all
  show ?thesis
  proof (cases "?M < \<bar>?m\<bar>")
    case True
    then have neg: "?m < 0" using bounds[OF Min'] by auto
    have "?m \<le> r" "r \<le> ?M" using bounds[OF r] by auto
    then show ?thesis using True neg
      by (simp add: norm_loc_real_def field_simps)
  next
    case False
    have "?M \<noteq> 0"
    proof
      assume M0: "?M = 0"
      then have "?m = 0" using False bounds[OF Min'] by auto
      then have "\<forall>r\<in>set rs. r = 0" using bounds M0 by fastforce
      with nz show False by blast
    qed
    then have pos: "0 < ?M" using False by auto
    have "?m \<le> r" "r \<le> ?M" using bounds[OF r] by auto
    then show ?thesis using False pos
      by (auto simp: norm_loc_real_def field_simps)
  qed
qed

lemma norm_loc_real_attains:
  assumes nz: "\<exists>r\<in>set rs. r \<noteq> 0"
  shows "\<exists>r\<in>set rs. norm_loc_real (Max (set rs)) (Min (set rs)) r = - (1/2)"
proof -
  let ?M = "Max (set rs)" and ?m = "Min (set rs)"
  from nz have ne: "rs \<noteq> []" by auto
  have bounds: "\<And>r. r \<in> set rs \<Longrightarrow> ?m \<le> r \<and> r \<le> ?M" by simp
  have Min': "?m \<in> set rs" and Max': "?M \<in> set rs" using ne by simp_all
  show ?thesis
  proof (cases "?M < \<bar>?m\<bar>")
    case True
    then have neg: "?m < 0" using bounds[OF Min'] by auto
    then have "norm_loc_real ?M ?m ?m = - (1/2)" using True
      by (simp add: norm_loc_real_def field_simps)
    then show ?thesis using Min' by blast
  next
    case False
    have "?M \<noteq> 0"
    proof
      assume M0: "?M = 0"
      then have "?m = 0" using False bounds[OF Min'] by auto
      then have "\<forall>r\<in>set rs. r = 0" using bounds M0 by fastforce
      with nz show False by blast
    qed
    then have pos: "0 < ?M" using False by auto
    then have "norm_loc_real ?M ?m ?M = - (1/2)" using False
      by (simp add: norm_loc_real_def field_simps)
    then show ?thesis using Max' by blast
  qed
qed

lemma norm_loc_out_range:
  assumes nz: "\<exists>r\<in>set rs. r \<noteq> 0" and r: "r \<in> set rs"
  shows "- (1/2) \<le> norm_loc_out (Max (set rs)) (Min (set rs)) r \<and>
         norm_loc_out (Max (set rs)) (Min (set rs)) r < 1/2"
  using norm_loc_real_range[OF nz r] by (simp add: norm_loc_out_def)

text \<open>Dividing a finite value by a divisor that may have overflowed.\<close>

lemma fl_div_by_double:
  assumes "0 < k" and "\<bar>x / (2 * k)\<bar> \<le> 1 / 2"
  shows "fl_div (Fin x) (fl_mul (Fin 2) (Fin k)) =
           Fin (if float_overflow \<le> 2 * k then 0 else x / (2 * k))"
proof (cases "float_overflow \<le> 2 * k")
  case True
  then show ?thesis by (simp add: f64_overflow)
next
  case False
  then have d: "f64 (2 * k) = Fin (2 * k)" using assms(1) by (intro f64_in_range) simp
  have "\<bar>x / (2 * k)\<bar> < float_overflow" using assms(2) float_overflow_gt by linarith
  then have q: "f64 (x / (2 * k)) = Fin (x / (2 * k))" by (rule f64_in_range)
  show ?thesis using False assms(1) by (simp add: d q)
qed

lemma normalize_localisations_fin:
  assumes c: "concat loc = map Fin rs" and nz: "\<exists>r\<in>set rs. r \<noteq> 0"
  shows "\<exists>out. normalize_localisations loc = Inr out \<and>
           concat out = map Fin (map (norm_loc_out (Max (set rs)) (Min (set rs))) rs)"
proof -
  let ?M = "Max (set rs)" and ?m = "Min (set rs)"
  from nz have ne: "rs \<noteq> []" by auto
  have bounds: "\<And>r. r \<in> set rs \<Longrightarrow> ?m \<le> r \<and> r \<le> ?M" by simp
  have Min': "?m \<in> set rs" and Max': "?M \<in> set rs" using ne by simp_all
  have mx: "np_max loc = Inr (Fin ?M)" and mn: "np_min loc = Inr (Fin ?m)"
    using c ne by (rule np_max_fin, rule np_min_fin)
  show ?thesis
  proof (cases "?M < \<bar>?m\<bar>")
    case True
    then have pos: "0 < \<bar>?m\<bar>" using bounds[OF Min'] by auto
    let ?f = "\<lambda>v. fl_div v (fl_mul (Fin 2) (fl_abs (Fin ?m)))"
    have eq: "normalize_localisations loc = Inr (amap ?f loc)"
      using True by (simp add: normalize_localisations_def mx mn)
    have pt: "?f (Fin r) = Fin (norm_loc_out ?M ?m r)" if r: "r \<in> set rs" for r
    proof -
      have e: "norm_loc_real ?M ?m r = r / (2 * \<bar>?m\<bar>)"
        using True by (simp add: norm_loc_real_def)
      have "\<bar>norm_loc_real ?M ?m r\<bar> \<le> 1 / 2"
        using norm_loc_real_range[OF nz r] by linarith
      then have rg: "\<bar>r / (2 * \<bar>?m\<bar>)\<bar> \<le> 1 / 2" unfolding e .
      have no: "norm_loc_out ?M ?m r =
                  (if float_overflow \<le> 2 * \<bar>?m\<bar> then 0 else r / (2 * \<bar>?m\<bar>))"
        unfolding norm_loc_out_def e using True by simp
      have "?f (Fin r) = fl_div (Fin r) (fl_mul (Fin 2) (Fin \<bar>?m\<bar>))"
        by (simp only: fl_abs.simps)
      also have "\<dots> = Fin (if float_overflow \<le> 2 * \<bar>?m\<bar> then 0 else r / (2 * \<bar>?m\<bar>))"
        by (rule fl_div_by_double[OF pos rg])
      finally show ?thesis by (simp only: no)
    qed
    have "map ?f (map Fin rs) = map (\<lambda>r. ?f (Fin r)) rs"
      by (simp only: map_map o_def)
    also have "\<dots> = map (\<lambda>r. Fin (norm_loc_out ?M ?m r)) rs"
      by (rule map_cong[OF refl]) (rule pt)
    also have "\<dots> = map Fin (map (norm_loc_out ?M ?m) rs)"
      by (simp only: map_map o_def)
    finally have "concat (amap ?f loc) = map Fin (map (norm_loc_out ?M ?m) rs)"
      by (simp only: concat_amap c)
    with eq show ?thesis by blast
  next
    case False
    have "?M \<noteq> 0"
    proof
      assume M0: "?M = 0"
      then have "?m = 0" using False bounds[OF Min'] by auto
      then have "\<forall>r\<in>set rs. r = 0" using bounds M0 by fastforce
      with nz show False by blast
    qed
    then have pos: "0 < ?M" using False by auto
    then have posa: "0 < \<bar>?M\<bar>" by simp
    let ?g = "\<lambda>v. if fl_eq v (Fin ?M) then fl_neg (Fin ?M) else v"
    let ?f = "\<lambda>v. fl_div v (fl_mul (Fin 2) (fl_abs (Fin ?M)))"
    have eq: "normalize_localisations loc = Inr (amap ?f (amap ?g loc))"
      using False by (simp add: normalize_localisations_def mx mn)
    have pt: "?f (?g (Fin r)) = Fin (norm_loc_out ?M ?m r)" if r: "r \<in> set rs" for r
    proof -
      let ?r' = "if r = ?M then - ?M else r"
      have g: "?g (Fin r) = Fin ?r'" by simp
      have e: "norm_loc_real ?M ?m r = ?r' / (2 * \<bar>?M\<bar>)"
        using False by (simp add: norm_loc_real_def)
      have "\<bar>norm_loc_real ?M ?m r\<bar> \<le> 1 / 2"
        using norm_loc_real_range[OF nz r] by linarith
      then have rg: "\<bar>?r' / (2 * \<bar>?M\<bar>)\<bar> \<le> 1 / 2" unfolding e .
      have no: "norm_loc_out ?M ?m r =
                  (if float_overflow \<le> 2 * \<bar>?M\<bar> then 0 else ?r' / (2 * \<bar>?M\<bar>))"
        unfolding norm_loc_out_def e using False by simp
      have "?f (?g (Fin r)) = fl_div (Fin ?r') (fl_mul (Fin 2) (Fin \<bar>?M\<bar>))"
        by (simp only: g fl_abs.simps)
      also have "\<dots> = Fin (if float_overflow \<le> 2 * \<bar>?M\<bar> then 0 else ?r' / (2 * \<bar>?M\<bar>))"
        by (rule fl_div_by_double[OF posa rg])
      finally show ?thesis by (simp only: no)
    qed
    have "map ?f (map ?g (map Fin rs)) = map (\<lambda>r. ?f (?g (Fin r))) rs"
      by (simp only: map_map o_def)
    also have "\<dots> = map (\<lambda>r. Fin (norm_loc_out ?M ?m r)) rs"
      by (rule map_cong[OF refl]) (rule pt)
    also have "\<dots> = map Fin (map (norm_loc_out ?M ?m) rs)"
      by (simp only: map_map o_def)
    finally have "concat (amap ?f (amap ?g loc)) = map Fin (map (norm_loc_out ?M ?m) rs)"
      by (simp only: concat_amap c)
    with eq show ?thesis by blast
  qed
qed

lemma norm_loc_out_no_overflow:
  assumes ne: "rs \<noteq> []" and small: "\<forall>r\<in>set rs. 2 * \<bar>r\<bar> < float_overflow"
  shows "norm_loc_out (Max (set rs)) (Min (set rs)) r = norm_loc_real (Max (set rs)) (Min (set rs)) r"
proof -
  have "Min (set rs) \<in> set rs" "Max (set rs) \<in> set rs" using ne by simp_all
  then have "2 * \<bar>Min (set rs)\<bar> < float_overflow" "2 * \<bar>Max (set rs)\<bar> < float_overflow"
    using small by blast+
  then have "\<not> float_overflow \<le>
      2 * (if Max (set rs) < \<bar>Min (set rs)\<bar> then \<bar>Min (set rs)\<bar> else \<bar>Max (set rs)\<bar>)"
    by (simp only: split: if_split) linarith
  then show ?thesis unfolding norm_loc_out_def by (simp only: if_False)
qed

lemma normalize_localisations_range:
  assumes fin: "\<forall>v\<in>set (concat loc). is_fin v"
      and nz: "\<exists>v\<in>set (concat loc). v \<noteq> Fin 0"
  shows "\<exists>out. normalize_localisations loc = Inr out \<and>
           (\<forall>v\<in>set (concat out). \<exists>x. v = Fin x \<and> - (1/2) \<le> x \<and> x < 1/2) \<and>
           ((\<forall>v\<in>set (concat loc). 2 * \<bar>fin_val v\<bar> < float_overflow) \<longrightarrow>
              Fin (- (1/2)) \<in> set (concat out))"
proof -
  define rs where "rs = map fin_val (concat loc)"
  have c: "concat loc = map Fin rs" unfolding rs_def using fin by (rule all_fin_conv)
  have nz': "\<exists>r\<in>set rs. r \<noteq> 0"
  proof -
    from nz obtain v where v: "v \<in> set (concat loc)" "v \<noteq> Fin 0" by blast
    from fin v(1) have "is_fin v" by blast
    then obtain x where "v = Fin x" by (cases v) auto
    with v have "x \<in> fin_val ` set (concat loc)" "x \<noteq> 0" by (force, simp)
    then show ?thesis unfolding rs_def by (simp only: set_map) blast
  qed
  then have ne: "rs \<noteq> []" by auto
  let ?g = "norm_loc_out (Max (set rs)) (Min (set rs))"
  from normalize_localisations_fin[OF c nz'] obtain out where
    o: "normalize_localisations loc = Inr out" "concat out = map Fin (map ?g rs)" by blast
  have "\<forall>v\<in>set (concat out). \<exists>x. v = Fin x \<and> - (1/2) \<le> x \<and> x < 1/2"
    unfolding o(2) using norm_loc_out_range[OF nz'] by auto
  moreover have "Fin (- (1/2)) \<in> set (concat out)"
    if small: "\<forall>v\<in>set (concat loc). 2 * \<bar>fin_val v\<bar> < float_overflow"
  proof -
    have "\<forall>r\<in>set rs. 2 * \<bar>r\<bar> < float_overflow" unfolding rs_def using small by simp
    then have "\<And>r. ?g r = norm_loc_real (Max (set rs)) (Min (set rs)) r"
      by (rule norm_loc_out_no_overflow[OF ne])
    then show ?thesis unfolding o(2) using norm_loc_real_attains[OF nz'] by force
  qed
  ultimately show ?thesis using o(1) by blast
qed

lemma normalize_localisations_fixed:
  assumes rng: "\<forall>v\<in>set (concat a). \<exists>x. v = Fin x \<and> - (1/2) \<le> x \<and> x < 1/2"
      and att: "Fin (- (1/2)) \<in> set (concat a)"
  shows "normalize_localisations a = Inr a"
proof -
  define rs where "rs = map fin_val (concat a)"
  have fin: "\<forall>v\<in>set (concat a). is_fin v" using rng by fastforce
  have c: "concat a = map Fin rs" unfolding rs_def using fin by (rule all_fin_conv)
  have mem: "- (1/2) \<in> set rs" unfolding rs_def using att by force
  then have ne: "rs \<noteq> []" by auto
  have rb: "\<forall>r\<in>set rs. - (1/2) \<le> r \<and> r < 1/2" unfolding rs_def using rng by fastforce
  have m: "Min (set rs) = - (1/2)"
    by (rule Min_eqI) (use mem rb in auto)
  have M: "Max (set rs) < 1/2" using rb ne by simp
  have mx: "np_max a = Inr (Fin (Max (set rs)))" and mn: "np_min a = Inr (Fin (Min (set rs)))"
    using c ne by (rule np_max_fin, rule np_min_fin)
  have one: "f64 1 = Fin 1" by (rule f64_small) simp
  have "normalize_localisations a = Inr (amap (\<lambda>v. fl_div v (Fin 1)) a)"
    using M by (simp add: normalize_localisations_def mx mn m one)
  moreover have "amap (\<lambda>v. fl_div v (Fin 1)) a = a"
  proof (rule amap_id, rule ballI)
    fix v assume "v \<in> set (concat a)"
    with rng obtain x where x: "v = Fin x" "- (1/2) \<le> x" "x < 1/2" by blast
    then have "f64 x = Fin x" by (intro f64_small) linarith
    then show "fl_div v (Fin 1) = v" by (simp add: x(1))
  qed
  ultimately show ?thesis by simp
qed

lemma normalize_localisations_twice:
  assumes fin: "\<forall>v\<in>set (concat loc). is_fin v"
      and nz: "\<exists>v\<in>set (concat loc). v \<noteq> Fin 0"
      and small: "\<forall>v\<in>set (concat loc). 2 * \<bar>fin_val v\<bar> < float_overflow"
  shows "\<exists>out. normalize_localisations loc = Inr out \<and> normalize_localisations out = Inr out"
  using normalize_localisations_range[OF fin nz] small normalize_localisations_fixed by blast

lemma bindIO_Inr_iff:
  "bindIO m f = (t, Inr y) \<longleftrightarrow>
     (\<exists>t1 x t2. m = (t1, Inr x) \<and> f x = (t2, Inr y) \<and> t = t1 @ t2)"
  by (cases m; cases "snd m") (auto simp: bindIO_def prod_eq_iff)

lemma bindIO_Inl: "snd m = Inl err \<Longrightarrow> bindIO m f = (fst m, Inl err)"
  by (simp add: bindIO_def)

lemma lift_Inr_iff: "lift r = (t, Inr x) \<longleftrightarrow> r = Inr x \<and> t = []"
  by (auto simp: lift_def)

lemma ret_iff: "ret x = (t, Inr y) \<longleftrightarrow> x = y \<and> t = []"
  by (auto simp: ret_def)

lemma raise_not_Inr: "raise err \<noteq> (t, Inr y)"
  by (simp add: raise_def)

lemma call_Inr_iff: "call name r = (t, Inr x) \<longleftrightarrow> r = Some x \<and> t = []"
  by (cases r) (auto simp: call_def ret_def raise_def)

lemma loadmat_real_Inr_iff:
  "loadmat_real e file key = (t, Inr a) \<longleftrightarrow>
     (\<exists>vars. real_mats e file = Some vars \<and> vars key = Some a) \<and> t = [file]"
  by (auto simp: loadmat_real_def lookup_var_def split: option.splits)

lemma loadmat_complex_Inr_iff:
  "loadmat_complex e file key = (t, Inr a) \<longleftrightarrow>
     (\<exists>vars. complex_mats e file = Some vars \<and> vars key = Some a) \<and> t = [file]"
  by (auto simp: loadmat_complex_def lookup_var_def split: option.splits)

lemma imread_Inr_iff:
  "imread e file = (t, Inr img) \<longleftrightarrow> images e file = Some img \<and> t = [file]"
  by (auto simp: imread_def split: option.splits)

lemma load_success:
  assumes "load_exbaboon_512_retrospection e sigma mask_type acc_factor =
             (t, Inr (ref, loc, kspace, bm, info))"
  shows "\<exists>t0 ref0 kpre noise peak img ch.
           load_before_noise e mask_type acc_factor = (t0, Inr (ref0, loc, kpre)) \<and>
           make_noise e sigma kpre = Inr noise \<and>
           np_max (amap c_abs kpre) = Inr peak \<and>
           np_binop c_add kpre noise = Inr kspace \<and>
           images e ''Ref_N512_NEX32_mask.png'' = Some img \<and>
           first_channel img = Inr ch \<and>
           ref = amap c_of_fl ref0 \<and>
           bm = rot90 (fliplr (binarize ch)) \<and>
           info = make_info sigma (snr_of kpre noise) (psnr_of peak noise) mask_type acc_factor \<and>
           t = t0 @ [''Ref_N512_NEX32_mask.png'']"
  using assms unfolding load_exbaboon_512_retrospection_def
  by (auto simp: bindIO_Inr_iff lift_Inr_iff ret_iff imread_Inr_iff)

lemma load_before_noise_success:
  assumes "load_before_noise e mask_type acc_factor = (t, Inr (ref, loc, kpre))"
  shows "\<exists>vars im t'. real_mats e ''Ref_babouin_NEX32.mat'' = Some vars \<and>
           vars ''im_ref'' = Some im \<and> ref = l2_normalize (amap fl_of_real im) \<and>
           load_loc_kspace e ref mask_type acc_factor = (t', Inr (loc, kpre)) \<and>
           t = ''Ref_babouin_NEX32.mat'' # t'"
  using assms unfolding load_before_noise_def load_ref_def
  by (auto simp: bindIO_Inr_iff ret_iff loadmat_real_Inr_iff)

lemma load_loc_kspace_cartesian_success:
  assumes "load_loc_kspace e ref ''cartesianR4'' None = (t, Inr (loc, kpre))"
  shows "\<exists>vars m mask f. real_mats e ''mask_BrainPhantom512_R4.mat'' = Some vars \<and>
           vars ''mask'' = Some m \<and> ifftshift e m = Some mask \<and>
           convert_mask_to_locations e mask = Some loc \<and> fft2 e ref = Some f \<and>
           np_binop (\<lambda>x z. c_mul (c_of_fl (fl_of_real x)) z) mask f = Inr kpre \<and>
           t = [''mask_BrainPhantom512_R4.mat'']"
  using assms unfolding load_loc_kspace_def
  by (auto simp: bindIO_Inr_iff ret_iff loadmat_real_Inr_iff call_Inr_iff lift_Inr_iff)


lemma f64_zero [simp]: "f64 0 = Fin 0"
  by (rule f64_small) simp

lemma f64_one [simp]: "f64 1 = Fin 1"
  by (rule f64_small) simp

lemma fl_of_real_zero [simp]: "fl_of_real 0 = Fin 0"
  by (rule fl_of_real_small) simp

lemma fl_add_valid: "fl_valid (fl_add x y)"
  by (cases x; cases y) (simp_all add: f64_valid)

lemma fl_mul_valid: "fl_valid (fl_mul x y)"
  by (cases x; cases y) (simp_all add: f64_valid signed_inf_def)

lemma fl_add_zero_right: "fl_valid x \<Longrightarrow> fl_add x (Fin 0) = x"
  by (cases x) (simp_all add: f64_in_range)

lemma c_mul_valid: "fl_valid (fst (c_mul p q)) \<and> fl_valid (snd (c_mul p q))"
  by (cases p; cases q) (simp add: fl_sub_def fl_add_valid)

lemma foldl_fl_add_fin:
  assumes "0 \<le> s" and "\<forall>x\<in>set xs. 0 \<le> x" and "s + sum_list xs < float_overflow"
  shows "foldl fl_add (Fin s) (map Fin xs) = Fin (s + sum_list xs)"
  using assms
proof (induction xs arbitrary: s)
  case Nil
  then show ?case by simp
next
  case (Cons x xs)
  have nn: "0 \<le> x" "0 \<le> sum_list xs"
    using Cons.prems(2) by (simp, intro sum_list_nonneg, simp)
  then have r: "\<bar>s + x\<bar> < float_overflow" using Cons.prems(1,3) by simp
  have "foldl fl_add (Fin (s + x)) (map Fin xs) = Fin (s + x + sum_list xs)"
    using Cons.prems nn by (intro Cons.IH) simp_all
  then show ?case by (simp add: f64_in_range[OF r] add.assoc)
qed

lemma fl_sum_fin:
  assumes "\<forall>x\<in>set xs. 0 \<le> x" and "sum_list xs < float_overflow"
  shows "fl_sum (map Fin xs) = Fin (sum_list xs)"
  using foldl_fl_add_fin[of 0 xs] assms by (simp add: fl_sum_def)

lemma sq_le_sum:
  assumes "x \<in> set xs"
  shows "x * x \<le> (\<Sum>x\<leftarrow>xs. x * (x::real))"
  by (rule member_le_sum_list) (use assms in auto)

lemma in_range_of_square:
  assumes "x * x < float_overflow"
  shows "\<bar>x\<bar> \<le> max_float"
proof (cases "\<bar>x\<bar> \<le> 2")
  case True
  then show ?thesis using max_float_gt by linarith
next
  case False
  then have "2 * \<bar>x\<bar> \<le> \<bar>x\<bar> * \<bar>x\<bar>" by (intro mult_right_mono) simp_all
  also have "\<dots> = x * x" by simp
  finally have "2 * \<bar>x\<bar> < float_overflow" using assms by linarith
  moreover have "float_overflow \<le> 2 * max_float"
    by (simp add: float_overflow_def max_float_def)
  ultimately show ?thesis by linarith
qed

lemma amap_cong: "(\<And>v. v \<in> set (concat a) \<Longrightarrow> f v = g v) \<Longrightarrow> amap f a = amap g a"
  unfolding amap_def by (induction a) auto

lemma amap_amap: "amap f (amap g a) = amap (\<lambda>x. f (g x)) a"
  by (simp add: amap_def o_def)

lemma amap_fl_of_real:
  assumes "(\<Sum>x\<leftarrow>concat a. x * x) < float_overflow"
  shows "amap fl_of_real a = amap Fin a"
proof -
  have "fl_of_real x = Fin x" if "x \<in> set (concat a)" for x
  proof -
    have "x * x < float_overflow" using sq_le_sum[OF that] assms by linarith
    then show ?thesis by (intro fl_of_real_id in_range_of_square)
  qed
  then show ?thesis by (rule amap_cong)
qed

lemma norm_real_Fin:
  assumes "(\<Sum>x\<leftarrow>concat a. x * x) < float_overflow"
  shows "norm_real (amap Fin a) = Fin (sqrt (\<Sum>x\<leftarrow>concat a. x * x))"
proof -
  let ?S = "\<Sum>x\<leftarrow>concat a. x * x"
  have nn: "0 \<le> ?S" by (rule sum_list_nonneg) auto
  have "map (\<lambda>x. fl_mul x x) (map Fin (concat a)) = map (\<lambda>x. fl_mul (Fin x) (Fin x)) (concat a)"
    by (simp only: map_map o_def)
  also have "\<dots> = map (\<lambda>x. Fin (x * x)) (concat a)"
  proof (rule map_cong[OF refl])
    fix x assume "x \<in> set (concat a)"
    then have "x * x < float_overflow" using sq_le_sum assms by fastforce
    then have "\<bar>x * x\<bar> < float_overflow" by simp
    then show "fl_mul (Fin x) (Fin x) = Fin (x * x)" by (simp add: f64_in_range)
  qed
  also have "\<dots> = map Fin (map (\<lambda>x. x * x) (concat a))"
    by (simp only: map_map o_def)
  finally have "fl_sum (map (\<lambda>x. fl_mul x x) (concat (amap Fin a))) = Fin ?S"
    using assms by (simp only: concat_amap) (intro fl_sum_fin, auto)
  then show ?thesis using nn by (simp add: norm_real_def)
qed

lemma sum_list_div_const: "(\<Sum>x\<leftarrow>xs. f x / c) = (\<Sum>x\<leftarrow>xs. f x) / (c::real)"
  by (induction xs) (simp_all add: add_divide_distrib)

lemma l2_normalize_fin:
  assumes "normal_range (\<Sum>x\<leftarrow>concat a. x * x)"
  shows "l2_normalize (amap fl_of_real a) =
           amap Fin (amap (\<lambda>x. x / sqrt (\<Sum>x\<leftarrow>concat a. x * x)) a)"
proof -
  let ?S = "\<Sum>x\<leftarrow>concat a. x * x"
  define n where "n = sqrt ?S"
  have pos: "0 < ?S" and up: "?S < float_overflow"
    using assms float_overflow_large by (auto simp: normal_range_def intro: less_le_trans[rotated])
  have emb: "amap fl_of_real a = amap Fin a" using up by (rule amap_fl_of_real)
  have nr: "norm_real (amap Fin a) = Fin n" unfolding n_def using up by (rule norm_real_Fin)
  have sp: "0 < n" unfolding n_def using pos by simp
  have pt: "fl_div (Fin x) (Fin n) = Fin (x / n)" if "x \<in> set (concat a)" for x
  proof -
    have "x * x \<le> ?S" using sq_le_sum[OF that] .
    then have "\<bar>x\<bar> \<le> n" unfolding n_def by (metis real_sqrt_abs2 real_sqrt_le_iff)
    then have "\<bar>x / n\<bar> \<le> 1" using sp by (simp add: field_simps)
    then have "f64 (x / n) = Fin (x / n)" by (intro f64_small) linarith
    then show ?thesis using sp by simp
  qed
  have "l2_normalize (amap fl_of_real a) = amap (\<lambda>x. fl_div (Fin x) (Fin n)) a"
    by (simp only: l2_normalize_def emb nr amap_amap)
  also have "\<dots> = amap (\<lambda>x. Fin (x / n)) a" by (rule amap_cong) (rule pt)
  also have "\<dots> = amap Fin (amap (\<lambda>x. x / n) a)" by (simp only: amap_amap)
  finally show ?thesis unfolding n_def .
qed

lemma l2_normalize_unit:
  assumes "normal_range (\<Sum>x\<leftarrow>concat a. x * x)"
  shows "norm_real (l2_normalize (amap fl_of_real a)) = Fin 1"
proof -
  let ?S = "\<Sum>x\<leftarrow>concat a. x * x"
  have pos: "0 < ?S" using assms by (auto simp: normal_range_def intro: less_le_trans[rotated])
  have "(\<Sum>x\<leftarrow>concat (amap (\<lambda>x. x / sqrt ?S) a). x * x) = (\<Sum>x\<leftarrow>concat a. (x * x) / ?S)"
    using pos by (simp add: concat_amap o_def)
  also have "\<dots> = ?S / ?S" by (rule sum_list_div_const)
  also have "\<dots> = 1" using pos by simp
  finally have one: "(\<Sum>x\<leftarrow>concat (amap (\<lambda>x. x / sqrt ?S) a). x * x) = 1" .
  have "norm_real (amap Fin (amap (\<lambda>x. x / sqrt ?S) a)) = Fin (sqrt 1)"
    using norm_real_Fin[of "amap (\<lambda>x. x / sqrt ?S) a"] float_overflow_gt unfolding one by simp
  then show ?thesis by (simp add: l2_normalize_fin[OF assms])
qed

lemma norm_complex_of_real: "norm_complex (amap c_of_fl a) = norm_real a"
proof -
  have "fl_add (fl_mul x x) (fl_mul (Fin 0) (Fin 0)) = fl_mul x x" for x
    using fl_add_zero_right[OF fl_mul_valid] by simp
  then show ?thesis
    by (simp add: norm_complex_def norm_real_def concat_amap c_of_fl_def o_def)
qed

lemma stretch_same: "stretch (bdim (length xs) (length xs)) xs = xs"
  by (cases xs) (auto simp: stretch_def bdim_def)

lemma rectD: "rect a \<Longrightarrow> r \<in> set a \<Longrightarrow> length r = snd (shape a)"
  by (simp add: rect_def list_all_iff)

lemma np_binop_same_shape:
  assumes ra: "rect a" and rb: "rect b" and sh: "shape a = shape b"
  shows "np_binop f a b = Inr (map2 (map2 f) a b)"
proof -
  have la: "fst (shape a) = length a" and lb: "fst (shape b) = length b"
    by (simp_all add: shape_def)
  have len: "length a = length b" using sh la lb by simp
  have rows: "map2 (\<lambda>r s. map2 f (stretch (bdim (snd (shape a)) (snd (shape b))) r)
                               (stretch (bdim (snd (shape b)) (snd (shape a))) s)) a b
        = map2 (map2 f) a b"
  proof (rule map_cong[OF refl])
    fix p assume p: "p \<in> set (zip a b)"
    obtain r s where rs: "p = (r, s)" by (cases p)
    from p rs have "r \<in> set a" "s \<in> set b" by (auto dest: set_zip_leftD set_zip_rightD)
    then have "length r = snd (shape a)" "length s = snd (shape a)"
      using rectD[OF ra] rectD[OF rb] sh by auto
    then have "stretch (bdim (snd (shape a)) (snd (shape b))) r = r"
              "stretch (bdim (snd (shape b)) (snd (shape a))) s = s"
      using sh stretch_same[of r] stretch_same[of s] by auto
    then show "(case p of (r, s) \<Rightarrow> map2 f (stretch (bdim (snd (shape a)) (snd (shape b))) r)
                               (stretch (bdim (snd (shape b)) (snd (shape a))) s))
             = (case p of (r, s) \<Rightarrow> map2 f r s)"
      by (simp add: rs)
  qed
  have "stretch (bdim (fst (shape a)) (fst (shape b))) a = a"
       "stretch (bdim (fst (shape b)) (fst (shape a))) b = b"
    using stretch_same[of a] stretch_same[of b] la lb len by auto
  then show ?thesis
    unfolding np_binop_def using sh rows by (simp add: broadcastable_def)
qed

lemma map2_same_map: "map2 f (map g xs) (map h xs) = map (\<lambda>x. f (g x) (h x)) xs"
  by (induction xs) simp_all

lemma map2_replicate_right: "map2 f xs (replicate (length xs) z) = map (\<lambda>x. f x z) xs"
  by (induction xs) simp_all

lemma shape_table:
  "shape (map (\<lambda>i. map (g i) [0..<n]) [0..<m]) = (m, if m = 0 then 0 else n)"
  by (cases m) (simp_all add: shape_def hd_map upt_conv_Cons del: upt_Suc)

lemma rect_table: "rect (map (\<lambda>i. map (g i) [0..<n]) [0..<m])"
  by (simp add: rect_def shape_table list_all_iff)


lemma sqrt_le_succ: "0 \<le> t \<Longrightarrow> sqrt t \<le> 1 + t"
proof -
  assume t: "0 \<le> t"
  have "t \<le> (1 + t) * (1 + t)" using t by (simp add: algebra_simps)
  then have "sqrt t \<le> sqrt ((1 + t) * (1 + t))" by (simp only: real_sqrt_le_iff)
  also have "\<dots> = 1 + t" using t by simp
  finally show ?thesis .
qed

lemma below_half_range: "x < 2 ^ 1023 \<Longrightarrow> 1 + x < float_overflow"
proof -
  assume "x < 2 ^ 1023"
  moreover have "(1::real) + 2 ^ 1023 \<le> float_overflow" by (simp add: float_overflow_def)
  ultimately show ?thesis by linarith
qed

lemma term_le_sum_sq:
  assumes "z \<in> set (concat K)"
  shows "Re z * Re z + Im z * Im z \<le> sum_sq K"
  unfolding sum_sq_def by (rule member_le_sum_list) (use assms in auto)

lemma c_fin_square:
  assumes "Re z * Re z + Im z * Im z < float_overflow"
  shows "fl_add (fl_mul (fst (c_fin z)) (fst (c_fin z))) (fl_mul (snd (c_fin z)) (snd (c_fin z))) =
           Fin (Re z * Re z + Im z * Im z)"
proof -
  have a: "\<bar>Re z * Re z\<bar> < float_overflow"
    using assms by (smt (verit) zero_le_square abs_of_nonneg)
  have b: "\<bar>Im z * Im z\<bar> < float_overflow"
    using assms by (smt (verit) zero_le_square abs_of_nonneg)
  have s: "\<bar>Re z * Re z + Im z * Im z\<bar> < float_overflow"
    using assms by (smt (verit) zero_le_square abs_of_nonneg)
  show ?thesis by (simp add: c_fin_def f64_in_range[OF a] f64_in_range[OF b] f64_in_range[OF s])
qed

lemma norm_complex_fin:
  assumes "sum_sq K < float_overflow"
  shows "norm_complex (amap c_fin K) = Fin (sqrt (sum_sq K))"
proof -
  let ?t = "\<lambda>z. Re z * Re z + Im z * Im z"
  have nn: "0 \<le> sum_sq K" unfolding sum_sq_def by (rule sum_list_nonneg) auto
  have "map (\<lambda>z. fl_add (fl_mul (fst z) (fst z)) (fl_mul (snd z) (snd z)))
          (map c_fin (concat K)) =
        map (\<lambda>z. fl_add (fl_mul (fst (c_fin z)) (fst (c_fin z)))
                     (fl_mul (snd (c_fin z)) (snd (c_fin z)))) (concat K)"
    by (simp only: map_map o_def)
  also have "\<dots> = map (\<lambda>z. Fin (?t z)) (concat K)"
  proof (rule map_cong[OF refl])
    fix z assume "z \<in> set (concat K)"
    then have "?t z < float_overflow" using term_le_sum_sq assms by fastforce
    then show "fl_add (fl_mul (fst (c_fin z)) (fst (c_fin z)))
                 (fl_mul (snd (c_fin z)) (snd (c_fin z))) = Fin (?t z)"
      by (rule c_fin_square)
  qed
  also have "\<dots> = map Fin (map ?t (concat K))" by (simp only: map_map o_def)
  finally have "fl_sum (map (\<lambda>z. fl_add (fl_mul (fst z) (fst z)) (fl_mul (snd z) (snd z)))
                  (concat (amap c_fin K))) = Fin (sum_sq K)"
    using assms unfolding sum_sq_def by (simp only: concat_amap) (intro fl_sum_fin, auto)
  then show ?thesis using nn by (simp add: norm_complex_def)
qed

lemma c_abs_fin:
  assumes "Re z * Re z + Im z * Im z < 2 ^ 1023"
  shows "c_abs (c_fin z) = Fin (cmod z)"
proof -
  let ?t = "Re z * Re z + Im z * Im z"
  have nn: "0 \<le> ?t" by simp
  have c: "cmod z = sqrt ?t" by (simp add: cmod_def power2_eq_square)
  have "sqrt ?t \<le> 1 + ?t" using nn by (rule sqrt_le_succ)
  moreover have "1 + ?t < float_overflow" using assms by (rule below_half_range)
  moreover have "0 \<le> sqrt ?t" using nn by simp
  ultimately have "\<bar>sqrt ?t\<bar> < float_overflow" by linarith
  then show ?thesis by (simp add: c_fin_def c f64_in_range)
qed

lemma np_max_abs_fin:
  assumes ne: "concat K \<noteq> []" and s: "sum_sq K < 2 ^ 1023"
  shows "np_max (amap c_abs (amap c_fin K)) = Inr (Fin (Max (set (map cmod (concat K)))))"
proof -
  have "map c_abs (map c_fin (concat K)) = map (\<lambda>z. c_abs (c_fin z)) (concat K)"
    by (simp only: map_map o_def)
  also have "\<dots> = map (\<lambda>z. Fin (cmod z)) (concat K)"
  proof (rule map_cong[OF refl])
    fix z assume "z \<in> set (concat K)"
    then have "Re z * Re z + Im z * Im z < 2 ^ 1023" using term_le_sum_sq s by fastforce
    then show "c_abs (c_fin z) = Fin (cmod z)" by (rule c_abs_fin)
  qed
  also have "\<dots> = map Fin (map cmod (concat K))" by (simp only: map_map o_def)
  finally have "concat (amap c_abs (amap c_fin K)) = map Fin (map cmod (concat K))"
    by (simp only: concat_amap)
  then show ?thesis by (rule np_max_fin) (use ne in simp)
qed

lemma normal_range_pos: "normal_range x \<Longrightarrow> 0 < x"
proof -
  assume "normal_range x"
  then have "1 / 2 ^ 1022 \<le> x" unfolding normal_range_def by (rule conjunct1)
  moreover have "(0::real) < 1 / 2 ^ 1022" by simp
  ultimately show ?thesis by (rule less_le_trans[rotated])
qed

lemma normal_range_in_range: "normal_range x \<Longrightarrow> \<bar>x\<bar> < float_overflow"
proof -
  assume n: "normal_range x"
  then have "x < 2 ^ 1023" unfolding normal_range_def by (rule conjunct2)
  then have "x < float_overflow" using float_overflow_large by (rule less_trans)
  then show ?thesis using normal_range_pos[OF n] by linarith
qed

lemma ln_two_bounds: "0 \<le> ln (2::real)" "ln (2::real) \<le> 1"
  using ln_le_minus_one[of "2::real"] by simp_all

lemma ln_normal_bound:
  assumes "normal_range r"
  shows "\<bar>20 * ln r\<bar> \<le> 100000"
proof -
  define P :: real where "P = 2 ^ 1023"
  define Q :: real where "Q = 2 ^ 1022"
  have P: "0 < P" and Q: "0 < Q" unfolding P_def Q_def by simp_all
  have lo: "1 / Q \<le> r" and hi: "r < P"
    using assms unfolding normal_range_def P_def Q_def by blast+
  have pos: "0 < r" using assms by (rule normal_range_pos)
  have lP: "ln P = real 1023 * ln 2" unfolding P_def by (rule ln_realpow)
  have lQ: "ln Q = real 1022 * ln 2" unfolding Q_def by (rule ln_realpow)
  have "ln r \<le> ln P" using hi pos P by (simp only: ln_le_cancel_iff less_imp_le)
  then have up: "ln r \<le> 1023" using ln_two_bounds unfolding lP by simp
  have iq: "0 < 1 / Q" using Q by simp
  have "ln (1 / Q) \<le> ln r" using lo pos iq by (simp only: ln_le_cancel_iff)
  moreover have "ln (1 / Q) = - ln Q" using Q by (simp add: ln_div)
  ultimately have "- 1022 \<le> ln r" using ln_two_bounds unfolding lQ by simp
  with up show ?thesis by simp
qed

lemma log_ratio_fin:
  assumes "0 < b" and "normal_range (a / b)"
  shows "fl_mul (Fin 20) (fl_log (fl_div (Fin a) (Fin b))) = Fin (20 * ln (a / b))"
proof -
  have q: "0 < a / b" using assms(2) by (rule normal_range_pos)
  have "\<bar>a / b\<bar> < float_overflow" using assms(2) by (rule normal_range_in_range)
  then have d: "fl_div (Fin a) (Fin b) = Fin (a / b)" using assms(1) by (simp add: f64_in_range)
  have "\<not> a / b < 0" "a / b \<noteq> 0" using q by linarith+
  then have l: "fl_log (Fin (a / b)) = Fin (ln (a / b))"
    by (simp only: fl_log.simps if_False)
  have "f64 (20 * ln (a / b)) = Fin (20 * ln (a / b))"
    using ln_normal_bound[OF assms(2)] by (rule f64_small)
  then show ?thesis unfolding d l by simp
qed

text \<open>The entries of an elementwise product of a real and a complex array.\<close>

lemma c_mul_real_fin:
  assumes "\<bar>m\<bar> \<le> max_float" and "in_range (m * a)" and "in_range (m * b)"
  shows "c_mul (c_of_fl (fl_of_real m)) (Fin a, Fin b) = (Fin (m * a), Fin (m * b))"
  using assms by (simp add: c_of_fl_def fl_of_real_id fl_sub_def in_range_def f64_in_range)

lemma np_binop_nth:
  assumes "rect a" and "rect b" and "shape a = shape b" and "np_binop f a b = Inr c"
      and "i < length a" and "j < length (a ! i)"
  shows "c ! i ! j = f (a ! i ! j) (b ! i ! j)"
proof -
  have c: "c = map2 (map2 f) a b" using np_binop_same_shape[OF assms(1-3), of f] assms(4) by simp
  have len: "length a = length b" using assms(3) by (simp add: shape_def)
  then have ib: "i < length b" using assms(5) by simp
  have "length (a ! i) = snd (shape a)" "length (b ! i) = snd (shape a)"
    using rectD[OF assms(1)] rectD[OF assms(2)] assms(3,5) ib by (simp_all add: nth_mem)
  then have jb: "j < length (b ! i)" using assms(6) by simp
  show ?thesis unfolding c using assms(5,6) ib jb by simp
qed

lemma np_binop_entries:
  assumes "np_binop f a b = Inr c" and "v \<in> set (concat c)"
  shows "\<exists>x y. v = f x y"
proof -
  let ?A = "stretch (bdim (fst (shape a)) (fst (shape b))) a"
  let ?B = "stretch (bdim (fst (shape b)) (fst (shape a))) b"
  let ?g = "stretch (bdim (snd (shape a)) (snd (shape b)))"
  let ?h = "stretch (bdim (snd (shape b)) (snd (shape a)))"
  have c: "c = map2 (\<lambda>r s. map2 f (?g r) (?h s)) ?A ?B"
    using assms(1) by (simp add: np_binop_def split: if_splits)
  from assms(2) obtain row where row: "row \<in> set c" "v \<in> set row" by auto
  from row(1) obtain r s where "row = map2 f (?g r) (?h s)" unfolding c by auto
  with row(2) show ?thesis by auto
qed

text \<open>The noise.\<close>

lemma noise_entry:
  "c_add (c_of_fl (fl_of_real r1)) (c_mul (Fin 0, Fin 1) (c_of_fl (fl_of_real r2))) =
     (fl_of_real r1, fl_of_real r2)"
proof -
  obtain c1 where c1: "fl_of_real r1 = Fin c1" "\<bar>c1\<bar> < float_overflow"
    using fl_of_real_fin by blast
  obtain c2 where c2: "fl_of_real r2 = Fin c2" "\<bar>c2\<bar> < float_overflow"
    using fl_of_real_fin by blast
  show ?thesis
    by (simp add: c1 c2 c_of_fl_def fl_sub_def f64_in_range)
qed

lemma make_noise_eq:
  "make_noise e sigma k =
     Inr (map (\<lambda>i. map (\<lambda>j. c_mul (c_of_fl (fl_of_real sigma))
                 (fl_of_real (randn e (i * snd (shape k) + j)),
                  fl_of_real (randn e (fst (shape k) * snd (shape k) + i * snd (shape k) + j))))
            [0..<snd (shape k)]) [0..<fst (shape k)])"
proof -
  let ?m = "fst (shape k)" and ?n = "snd (shape k)"
  let ?a = "amap (\<lambda>x. c_of_fl (fl_of_real x)) (randn_array e 0 ?m ?n)"
  let ?b = "amap (\<lambda>x. c_mul (Fin 0, Fin 1) (c_of_fl (fl_of_real x)))
              (randn_array e (?m * ?n) ?m ?n)"
  have a: "?a = map (\<lambda>i. map (\<lambda>j. c_of_fl (fl_of_real (randn e (i * ?n + j)))) [0..<?n]) [0..<?m]"
    by (simp add: amap_def randn_array_def o_def)
  have b: "?b = map (\<lambda>i. map (\<lambda>j. c_mul (Fin 0, Fin 1)
                 (c_of_fl (fl_of_real (randn e (?m * ?n + i * ?n + j))))) [0..<?n]) [0..<?m]"
    by (simp only: amap_def randn_array_def map_map o_def)
  have "np_binop c_add ?a ?b = Inr (map2 (map2 c_add) ?a ?b)"
    unfolding a b by (rule np_binop_same_shape) (simp_all add: rect_table shape_table)
  also have "map2 (map2 c_add) ?a ?b =
       map (\<lambda>i. map (\<lambda>j. (fl_of_real (randn e (i * ?n + j)),
                          fl_of_real (randn e (?m * ?n + i * ?n + j)))) [0..<?n]) [0..<?m]"
    unfolding a b by (simp only: map2_same_map noise_entry)
  finally show ?thesis
    by (simp add: make_noise_def bindE_def amap_def o_def)
qed

lemma zero_times_entry: "c_mul (c_of_fl (Fin 0)) (fl_of_real r1, fl_of_real r2) = (Fin 0, Fin 0)"
proof -
  obtain c1 where c1: "fl_of_real r1 = Fin c1" using fl_of_real_fin by blast
  obtain c2 where c2: "fl_of_real r2 = Fin c2" using fl_of_real_fin by blast
  show ?thesis by (simp add: c1 c2 c_of_fl_def fl_sub_def)
qed

lemma make_noise_zero: "make_noise e 0 k = Inr (zeros (shape k))"
  by (simp add: make_noise_eq zeros_def zero_times_entry map_replicate_const)

lemma c_add_zero_right:
  "fl_valid (fst z) \<Longrightarrow> fl_valid (snd z) \<Longrightarrow> c_add z (Fin 0, Fin 0) = z"
  by (cases z) (simp add: fl_add_zero_right)

lemma add_zeros:
  assumes "rect k" and v: "\<forall>z\<in>set (concat k). fl_valid (fst z) \<and> fl_valid (snd z)"
  shows "np_binop c_add k (zeros (shape k)) = Inr k"
proof -
  have sh: "shape (zeros (shape k)) = shape k"
    by (cases k) (simp_all add: zeros_def shape_def)
  have r: "rect (zeros (shape k))"
    by (cases k) (simp_all add: zeros_def shape_def rect_def list_all_iff)
  have "np_binop c_add k (zeros (shape k)) = Inr (map2 (map2 c_add) k (zeros (shape k)))"
    by (rule np_binop_same_shape) (simp_all add: assms r sh)
  also have "map2 (map2 c_add) k (zeros (shape k)) =
             map (\<lambda>r. map2 c_add r (replicate (snd (shape k)) (Fin 0, Fin 0))) k"
    by (simp add: zeros_def shape_def map2_replicate_right)
  also have "\<dots> = map (\<lambda>r. r) k"
  proof (rule map_cong[OF refl])
    fix r assume rk: "r \<in> set k"
    then have len: "length r = snd (shape k)" using rectD[OF assms(1)] by blast
    have "map (\<lambda>x. c_add x (Fin 0, Fin 0)) r = map (\<lambda>x. x) r"
    proof (rule map_cong[OF refl])
      fix x assume "x \<in> set r"
      then have "x \<in> set (concat k)" using rk by auto
      then show "c_add x (Fin 0, Fin 0) = x" using v by (intro c_add_zero_right) blast+
    qed
    then show "map2 c_add r (replicate (snd (shape k)) (Fin 0, Fin 0)) = r"
      using map2_replicate_right[of c_add r "(Fin 0, Fin 0)"] len by simp
  qed
  finally show ?thesis by simp
qed

text \<open>Every k-space value that the branches deliver is a float64.\<close>

lemma load_samples_values_success:
  assumes "load_samples_values e f1 f2 = (t, Inr (loc, k))"
  shows "\<exists>vals. k = amap c_of_complex vals"
  using assms unfolding load_samples_values_def
  by (auto simp: bindIO_Inr_iff ret_iff lift_Inr_iff)

lemma c_of_complex_valid: "fl_valid (fst (c_of_complex z)) \<and> fl_valid (snd (c_of_complex z))"
  by (simp add: c_of_complex_def fl_of_real_valid)

lemma load_loc_kspace_valid:
  assumes "load_loc_kspace e ref mask_type acc_factor = (t, Inr (loc, k))"
      and "z \<in> set (concat k)"
  shows "fl_valid (fst z) \<and> fl_valid (snd z)"
proof -
  consider (cart) mask f where "np_binop (\<lambda>x z. c_mul (c_of_fl (fl_of_real x)) z) mask f = Inr k"
    | (rad) vals where "k = amap c_of_complex vals"
    using assms(1) unfolding load_loc_kspace_def
    by (auto simp: bindIO_Inr_iff ret_iff lift_Inr_iff raise_not_Inr
             dest: load_samples_values_success split: if_splits)
  then show ?thesis
  proof cases
    case cart
    from np_binop_entries[OF cart assms(2)] obtain x y where
      "z = c_mul (c_of_fl (fl_of_real x)) y" by blast
    then show ?thesis by (simp only: c_mul_valid)
  next
    case rad
    then show ?thesis using assms(2) c_of_complex_valid by (auto simp: concat_amap)
  qed
qed

lemma load_before_noise_valid:
  assumes "load_before_noise e mask_type acc_factor = (t, Inr (ref, loc, k))"
  shows "\<forall>z\<in>set (concat k). fl_valid (fst z) \<and> fl_valid (snd z)"
proof -
  from assms obtain ref0 t' where
    "load_loc_kspace e ref0 mask_type acc_factor = (t', Inr (loc, k))"
    unfolding load_before_noise_def by (auto simp: bindIO_Inr_iff ret_iff)
  then show ?thesis using load_loc_kspace_valid by blast
qed

lemma bindIO_raise: "bindIO (raise err) f = raise err"
  by (simp add: bindIO_def raise_def)

lemma bindIO_then_raise:
  "bindIO (bindIO m (\<lambda>x. raise err)) f = bindIO m (\<lambda>x. raise err)"
  by (cases "snd m") (simp_all add: bindIO_def raise_def)

lemma load_loc_kspace_invalid:
  assumes "invalid_arguments mask_type acc_factor"
  shows "load_loc_kspace e ref mask_type acc_factor =
           raise (ValueError (raised_message mask_type acc_factor))"
  using assms
  by (auto simp: invalid_arguments_def load_loc_kspace_def raised_message_def)

lemma load_before_noise_invalid:
  assumes "invalid_arguments mask_type acc_factor"
  shows "load_before_noise e mask_type acc_factor =
           bindIO (load_ref e) (\<lambda>ref. raise (ValueError (raised_message mask_type acc_factor)))"
  by (simp add: load_before_noise_def load_loc_kspace_invalid[OF assms] bindIO_raise)

lemma load_invalid:
  assumes "invalid_arguments mask_type acc_factor"
  shows "load_exbaboon_512_retrospection e sigma mask_type acc_factor =
           bindIO (load_ref e) (\<lambda>ref. raise (ValueError (raised_message mask_type acc_factor)))"
  by (simp add: load_exbaboon_512_retrospection_def load_before_noise_invalid[OF assms]
      bindIO_then_raise)

lemma load_ref_trace: "fst (load_ref e) = [''Ref_babouin_NEX32.mat'']"
  by (simp add: load_ref_def bindIO_def loadmat_real_def ret_def split: sum.splits)

lemma load_ref_no_VE: "snd (load_ref e) \<noteq> Inl (ValueError msg)"
  by (simp add: load_ref_def bindIO_def loadmat_real_def lookup_var_def ret_def
      split: sum.splits option.splits)

lemma bindIO_VE:
  assumes "snd (bindIO m f) = Inl (ValueError msg)"
  shows "snd m = Inl (ValueError msg) \<or> (\<exists>x. snd m = Inr x \<and> snd (f x) = Inl (ValueError msg))"
  using assms by (cases "snd m") (simp_all add: bindIO_def)

lemma bindIO_no_VE:
  assumes "\<And>msg. snd m \<noteq> Inl (ValueError msg)"
      and "\<And>x msg. snd (f x) \<noteq> Inl (ValueError msg)"
  shows "snd (bindIO m f) \<noteq> Inl (ValueError msg)"
  using bindIO_VE assms by blast

lemma loadmat_real_no_VE: "snd (loadmat_real e file key) \<noteq> Inl (ValueError msg)"
  by (simp add: loadmat_real_def lookup_var_def split: option.splits)

lemma loadmat_complex_no_VE: "snd (loadmat_complex e file key) \<noteq> Inl (ValueError msg)"
  by (simp add: loadmat_complex_def lookup_var_def split: option.splits)

lemma imread_no_VE: "snd (imread e file) \<noteq> Inl (ValueError msg)"
  by (simp add: imread_def split: option.splits)

lemma call_no_VE: "snd (call name r) \<noteq> Inl (ValueError msg)"
  by (simp add: call_def raise_def ret_def split: option.splits)

lemma ret_no_VE: "snd (ret x) \<noteq> Inl (ValueError msg)"
  by (simp add: ret_def)

lemma np_binop_no_VE: "np_binop f a b \<noteq> Inl (ValueError msg)"
  by (simp add: np_binop_def)

lemma np_max_no_VE: "np_max a \<noteq> Inl (ValueError msg)"
  by (simp add: np_max_def split: list.splits)

lemma np_min_no_VE: "np_min a \<noteq> Inl (ValueError msg)"
  by (simp add: np_min_def split: list.splits)

lemma normalize_localisations_no_VE: "normalize_localisations a \<noteq> Inl (ValueError msg)"
  using np_max_no_VE[of a msg] np_min_no_VE[of a msg]
  by (auto simp: normalize_localisations_def bindE_def split: sum.splits)

lemma first_channel_no_VE: "first_channel img \<noteq> Inl (ValueError msg)"
  by (simp add: first_channel_def)

lemma lift_no_VE: "r \<noteq> Inl (ValueError msg) \<Longrightarrow> snd (lift r) \<noteq> Inl (ValueError msg)"
  by (simp add: lift_def)

lemmas no_VE_intros = bindIO_no_VE loadmat_real_no_VE loadmat_complex_no_VE imread_no_VE
  call_no_VE ret_no_VE lift_no_VE np_binop_no_VE np_max_no_VE normalize_localisations_no_VE
  first_channel_no_VE

lemma load_samples_values_no_VE:
  "snd (load_samples_values e f1 f2) \<noteq> Inl (ValueError msg)"
  unfolding load_samples_values_def by (intro no_VE_intros)

lemma load_loc_kspace_valid_no_VE:
  assumes "\<not> invalid_arguments mask_type acc_factor"
  shows "snd (load_loc_kspace e ref mask_type acc_factor) \<noteq> Inl (ValueError msg)"
proof -
  have cart: "snd (bindIO (loadmat_real e ''mask_BrainPhantom512_R4.mat'' ''mask'') (\<lambda>m.
           bindIO (call ''ifftshift'' (ifftshift e m)) (\<lambda>mask.
           bindIO (call ''convert_mask_to_locations'' (convert_mask_to_locations e mask)) (\<lambda>loc.
           bindIO (call ''fft2'' (fft2 e ref)) (\<lambda>f.
           bindIO (lift (np_binop (\<lambda>x z. c_mul (c_of_fl (fl_of_real x)) z) mask f)) (\<lambda>kspace.
           ret (loc, kspace))))))) \<noteq> Inl (ValueError msg)"
    by (intro no_VE_intros)
  show ?thesis
    using assms cart
    by (auto simp: invalid_arguments_def load_loc_kspace_def load_samples_values_no_VE)
qed

lemma make_noise_no_VE: "make_noise e sigma k \<noteq> Inl (ValueError msg)"
  by (simp add: make_noise_eq)

lemma load_valid_no_VE:
  assumes "\<not> invalid_arguments mask_type acc_factor"
  shows "snd (load_exbaboon_512_retrospection e sigma mask_type acc_factor) \<noteq> Inl (ValueError msg)"
  unfolding load_exbaboon_512_retrospection_def load_before_noise_def
  by (intro no_VE_intros load_ref_no_VE load_loc_kspace_valid_no_VE[OF assms] make_noise_no_VE)

lemma sublist_msg_cartesian: "sublist (format_acc a) (msg_cartesian a)"
  unfolding msg_cartesian_def by (rule suffix_imp_sublist) (rule suffixI[OF refl])

lemma sublist_msg_acc: "sublist (format_acc a) (msg_acc a)"
  unfolding msg_acc_def by (rule suffix_imp_sublist) (rule suffixI[OF refl])

lemma sublist_msg_type: "sublist t (msg_type t)"
  unfolding msg_type_def by (rule sublist_appendI)

lemma raised_message_names:
  "sublist (offending_value mask_type acc_factor) (raised_message mask_type acc_factor)"
  by (simp add: offending_value_def raised_message_def sublist_msg_cartesian sublist_msg_acc
      sublist_msg_type)


lemmas io_defs = bindIO_def ret_def raise_def lift_def call_def loadmat_real_def
  loadmat_complex_def imread_def lookup_var_def bindE_def

lemmas small_floats = f64_small fl_of_real_small

lemma sqrt_squares: "sqrt 64 = 8" "sqrt 225 = 15" "sqrt 289 = 17"
  by (rule real_sqrt_unique; simp)+

lemma f64_log_small:
  assumes "1 \<le> x" and "x \<le> 1000"
  shows "f64 (20 * ln x) = Fin (20 * ln x)"
proof -
  have "0 \<le> ln x" using assms(1) by simp
  moreover have "ln x \<le> x - 1" using assms(1) by (intro ln_le_minus_one) simp
  ultimately have "\<bar>20 * ln x\<bar> \<le> 100000" using assms(2) by simp
  then show ?thesis by (rule f64_small)
qed

lemma demo_ref: "load_ref demo_env = ([''Ref_babouin_NEX32.mat''], Inr [[Fin 0, Fin 1]])"
  by (simp add: load_ref_def demo_env_def io_defs l2_normalize_def amap_def norm_real_def
      fl_sum_def small_floats)

lemma demo_norm_loc:
  "normalize_localisations [[Fin 1, Fin (- 2)]] = Inr [[Fin (1/4), Fin (- (1/2))]]"
  by (simp add: normalize_localisations_def np_max_def np_min_def fl_max_def fl_min_def
      amap_def bindE_def small_floats)

lemma demo_before_radial:
  "load_before_noise demo_env ''radial'' (Some 8) =
     ([''Ref_babouin_NEX32.mat'', ''samples_radial_x8_64x3072.mat'', ''values_radial_x8_64x3072.mat''],
      Inr ([[Fin 0, Fin 1]], [[Fin (1/4), Fin (- (1/2))]], [[(Fin 0, Fin 2)]]))"
  unfolding load_before_noise_def demo_ref
  by (simp add: load_loc_kspace_def load_samples_values_def demo_env_def io_defs amap_def
      demo_norm_loc c_of_complex_def small_floats)

lemma demo_before_radial15:
  "load_before_noise demo_env ''radial'' (Some 15) =
     ([''Ref_babouin_NEX32.mat'', ''samples_radial_x15_34x3072.mat'',
       ''values_radial_x15_34x3072.mat''],
      Inr ([[Fin 0, Fin 1]], [[Fin (1/4), Fin (- (1/2))]], [[(Fin 9, Fin 12), (Fin 8, Fin 0)]]))"
  unfolding load_before_noise_def demo_ref
  by (simp add: load_loc_kspace_def load_samples_values_def demo_env_def io_defs amap_def
      demo_norm_loc c_of_complex_def small_floats)

lemma demo_noise: "make_noise demo_env 1 [[(Fin 0, Fin 2)]] = Inr [[(Fin 1, Fin 0)]]"
  by (simp add: make_noise_eq shape_def demo_env_def c_of_fl_def fl_sub_def small_floats)

lemma demo_noise2:
  "make_noise demo_env 1 [[a, b]] = Inr [[(Fin 1, Fin 0), (Fin 0, Fin 0)]]"
  by (simp add: make_noise_eq shape_def demo_env_def c_of_fl_def fl_sub_def small_floats
      upt_conv_Cons)

lemmas finish_defs = np_max_def amap_def np_binop_def shape_def broadcastable_def bdim_def
  stretch_def first_channel_def binarize_def rot90_def fliplr_def c_of_fl_def snr_of_def
  psnr_of_def norm_complex_def fl_sum_def fl_max_def signed_inf_def

lemma demo_full:
  "load_exbaboon_512_retrospection demo_env 1 ''radial'' (Some 8) =
     ([''Ref_babouin_NEX32.mat'', ''samples_radial_x8_64x3072.mat'', ''values_radial_x8_64x3072.mat'',
       ''Ref_N512_NEX32_mask.png''],
      Inr ([[(Fin 0, Fin 0), (Fin 1, Fin 0)]], [[Fin (1/4), Fin (- (1/2))]], [[(Fin 1, Fin 2)]],
           [[0, 0], [1, 0]],
           make_info 1 (Fin (20 * ln 2)) (Fin (20 * ln 2)) ''radial'' (Some 8)))"
  unfolding load_exbaboon_512_retrospection_def demo_before_radial
  apply (simp add: io_defs demo_noise)
  apply (simp add: finish_defs demo_env_def small_floats f64_log_small)
  done

lemma demo_full15:
  "load_exbaboon_512_retrospection demo_env 1 ''radial'' (Some 15) =
     ([''Ref_babouin_NEX32.mat'', ''samples_radial_x15_34x3072.mat'',
       ''values_radial_x15_34x3072.mat'', ''Ref_N512_NEX32_mask.png''],
      Inr ([[(Fin 0, Fin 0), (Fin 1, Fin 0)]], [[Fin (1/4), Fin (- (1/2))]],
           [[(Fin 10, Fin 12), (Fin 8, Fin 0)]],
           [[0, 0], [1, 0]],
           make_info 1 (Fin (20 * ln 17)) (Fin (20 * ln 15)) ''radial'' (Some 15)))"
  unfolding load_exbaboon_512_retrospection_def demo_before_radial15
  apply (simp add: io_defs demo_noise2)
  apply (simp add: finish_defs demo_env_def small_floats f64_log_small sqrt_squares)
  done

lemma first_channel_Inr: "first_channel img = Inr ch \<Longrightarrow> ch = amap hd img"
  by (simp add: first_channel_def split: if_splits)

lemma rot90_fliplr: "rot90 (fliplr m) = transpose m"
  by (simp add: rot90_def fliplr_def o_def)

lemma make_info_lookup:
  "make_info sigma snr psnr mask_type acc_factor ''sigma'' = Some (PyFloat (fl_of_real sigma))"
  "make_info sigma snr psnr mask_type acc_factor ''snr'' = Some (PyFloat snr)"
  "make_info sigma snr psnr mask_type acc_factor ''psnr'' = Some (PyFloat psnr)"
  by (simp_all add: make_info_def)

lemma demo_cartesian_before:
  "load_before_noise demo_env ''cartesianR4'' None =
     ([''Ref_babouin_NEX32.mat'', ''mask_BrainPhantom512_R4.mat''],
      Inr ([[Fin 0, Fin 1]], [[Fin (- (1/2)), Fin (- (1/2))]], [[(Fin 1, Fin 0), (Fin 0, Fin 0)]]))"
  unfolding load_before_noise_def demo_ref
  by (simp add: load_loc_kspace_def demo_env_def io_defs amap_def c_of_fl_def np_binop_def
      shape_def broadcastable_def bdim_def stretch_def fl_sub_def small_floats)

lemma demo_cartesian_full:
  "load_exbaboon_512_retrospection demo_env 1 ''cartesianR4'' None =
     ([''Ref_babouin_NEX32.mat'', ''mask_BrainPhantom512_R4.mat'', ''Ref_N512_NEX32_mask.png''],
      Inr ([[(Fin 0, Fin 0), (Fin 1, Fin 0)]], [[Fin (- (1/2)), Fin (- (1/2))]],
           [[(Fin 2, Fin 0), (Fin 0, Fin 0)]],
           [[0, 0], [1, 0]],
           make_info 1 (Fin 0) (Fin 0) ''cartesianR4'' None))"
  unfolding load_exbaboon_512_retrospection_def demo_cartesian_before
  apply (simp add: io_defs demo_noise2)
  apply (simp add: finish_defs demo_env_def small_floats)
  done

lemma demo_zero_full:
  "load_exbaboon_512_retrospection demo_env 0 ''radial'' (Some 8) =
     ([''Ref_babouin_NEX32.mat'', ''samples_radial_x8_64x3072.mat'', ''values_radial_x8_64x3072.mat'',
       ''Ref_N512_NEX32_mask.png''],
      Inr ([[(Fin 0, Fin 0), (Fin 1, Fin 0)]], [[Fin (1/4), Fin (- (1/2))]], [[(Fin 0, Fin 2)]],
           [[0, 0], [1, 0]],
           make_info 0 PInf PInf ''radial'' (Some 8)))"
  unfolding load_exbaboon_512_retrospection_def demo_before_radial
  apply (simp add: io_defs make_noise_zero zeros_def shape_def)
  apply (simp add: finish_defs demo_env_def small_floats)
  done

text \<open>The directory with the large reference image.\<close>

lemma overflow_norm: "norm_real (amap fl_of_real [[2 ^ 700, 2 ^ 700]]) = PInf"
  by (simp add: norm_real_def amap_def fl_sum_def fl_of_real_def max_float_def f64_def
      float_overflow_def)

lemma overflow_ref:
  "load_ref overflow_env = ([''Ref_babouin_NEX32.mat''], Inr [[Fin 0, Fin 0]])"
proof -
  have "l2_normalize (amap fl_of_real [[2 ^ 700, 2 ^ 700]]) = [[Fin 0, Fin 0]]"
    unfolding l2_normalize_def overflow_norm
    by (simp add: amap_def fl_of_real_def max_float_def)
  then show ?thesis
    by (simp add: load_ref_def overflow_env_def demo_env_def io_defs)
qed

lemma overflow_before_radial:
  "load_before_noise overflow_env ''radial'' (Some 8) =
     ([''Ref_babouin_NEX32.mat'', ''samples_radial_x8_64x3072.mat'', ''values_radial_x8_64x3072.mat''],
      Inr ([[Fin 0, Fin 0]], [[Fin (1/4), Fin (- (1/2))]], [[(Fin 0, Fin 2)]]))"
  unfolding load_before_noise_def overflow_ref
  by (simp add: load_loc_kspace_def load_samples_values_def overflow_env_def demo_env_def
      io_defs amap_def demo_norm_loc c_of_complex_def small_floats)

lemma overflow_noise: "make_noise overflow_env 1 [[(Fin 0, Fin 2)]] = Inr [[(Fin 1, Fin 0)]]"
  by (simp add: make_noise_eq shape_def overflow_env_def demo_env_def c_of_fl_def fl_sub_def
      small_floats)

lemma overflow_full:
  "load_exbaboon_512_retrospection overflow_env 1 ''radial'' (Some 8) =
     ([''Ref_babouin_NEX32.mat'', ''samples_radial_x8_64x3072.mat'', ''values_radial_x8_64x3072.mat'',
       ''Ref_N512_NEX32_mask.png''],
      Inr ([[(Fin 0, Fin 0), (Fin 0, Fin 0)]], [[Fin (1/4), Fin (- (1/2))]], [[(Fin 1, Fin 2)]],
           [[0, 0], [1, 0]],
           make_info 1 (Fin (20 * ln 2)) (Fin (20 * ln 2)) ''radial'' (Some 8)))"
  unfolding load_exbaboon_512_retrospection_def overflow_before_radial
  apply (simp add: io_defs overflow_noise)
  apply (simp add: finish_defs overflow_env_def demo_env_def small_floats f64_log_small)
  done

lemma normal_range_small: "1 \<le> x \<Longrightarrow> x \<le> 100000 \<Longrightarrow> normal_range x"
proof -
  assume a: "1 \<le> x" and b: "x \<le> 100000"
  have "(1::real) / 2 ^ 1022 \<le> 1" by simp
  then have l: "1 / 2 ^ 1022 \<le> x" using a by linarith
  have "(100000::real) < 2 ^ 1023" by simp
  then have u: "x < 2 ^ 1023" using b by linarith
  show ?thesis unfolding normal_range_def using l u by blast
qed

lemma in_range_small: "\<bar>x\<bar> \<le> 100000 \<Longrightarrow> in_range x"
  unfolding in_range_def using float_overflow_gt by linarith

lemma max_float_small: "\<bar>x\<bar> \<le> 100000 \<Longrightarrow> \<bar>x\<bar> \<le> max_float"
  using max_float_gt by linarith

lemma demo_l2: "l2_normalize (amap fl_of_real [[0, 2]]) = [[Fin 0, Fin 1]]"
  by (simp add: l2_normalize_def amap_def norm_real_def fl_sum_def small_floats)

lemma sum_sq_empty: "concat K = [] \<Longrightarrow> sum_sq K = 0"
  unfolding sum_sq_def by (simp only: list.map sum_list.Nil)

section \<open>Properties of the helpers and of the loader\<close>

text \<open>
  C2. For a coordinate array of finite values that are not all zero,
  \<open>_normalize_localisations\<close> returns an array whose every entry lies in the half-open
  interval from -0.5 (included) to 0.5 (excluded). The lower bound is attained whenever
  the divisor, twice the largest magnitude, does not overflow.
\<close>

theorem normalize_localisations_half_open:
  assumes "\<forall>v\<in>set (concat loc). is_fin v"
      and "\<exists>v\<in>set (concat loc). v \<noteq> Fin 0"
  shows "\<exists>out. normalize_localisations loc = Inr out \<and>
           (\<forall>v\<in>set (concat out). \<exists>x. v = Fin x \<and> - (1/2) \<le> x \<and> x < 1/2) \<and>
           ((\<forall>v\<in>set (concat loc). 2 * \<bar>fin_val v\<bar> < float_overflow) \<longrightarrow>
              Fin (- (1/2)) \<in> set (concat out))"
  using assms by (rule normalize_localisations_range)

theorem normalize_localisations_half_open_witness:
  "list_all is_fin (concat [[Fin 1, Fin (- 2)]]) \<and>
   (\<exists>v\<in>set (concat [[Fin 1, Fin (- 2)]]). v \<noteq> Fin 0) \<and>
   list_all (\<lambda>v. 2 * \<bar>fin_val v\<bar> < float_overflow) (concat [[Fin 1, Fin (- 2)]]) \<and>
   normalize_localisations [[Fin 1, Fin (- 2)]] = Inr [[Fin (1/4), Fin (- (1/2))]] \<and>
   (\<exists>out. normalize_localisations [[Fin 1, Fin (- 2)]] = Inr out \<and>
      (\<forall>v\<in>set (concat out). \<exists>x. v = Fin x \<and> - (1/2) \<le> x \<and> x < 1/2) \<and>
      Fin (- (1/2)) \<in> set (concat out))"
proof -
  have h1: "\<forall>v\<in>set (concat [[Fin 1, Fin (- 2)]]). is_fin v" by simp
  have h2: "\<exists>v\<in>set (concat [[Fin 1, Fin (- 2)]]). v \<noteq> Fin 0" by simp
  have h3: "\<forall>v\<in>set (concat [[Fin 1, Fin (- 2)]]). 2 * \<bar>fin_val v\<bar> < float_overflow"
    using float_overflow_gt by simp
  have h0: "list_all is_fin (concat [[Fin 1, Fin (- 2)]])" by simp
  have h4: "list_all (\<lambda>v. 2 * \<bar>fin_val v\<bar> < float_overflow) (concat [[Fin 1, Fin (- 2)]])"
    using float_overflow_gt by simp
  show ?thesis
    using h0 h2 h3 h4 normalize_localisations_half_open[OF h1 h2] demo_norm_loc by blast
qed

text \<open>
  C8, as the code has it. \<open>_normalize_localisations\<close> is idempotent on a coordinate array
  of finite values that are not all zero, provided twice the largest magnitude does not
  overflow: the array it returns is returned unchanged by a second application.
\<close>

theorem normalize_localisations_idempotent:
  assumes "\<forall>v\<in>set (concat loc). is_fin v"
      and "\<exists>v\<in>set (concat loc). v \<noteq> Fin 0"
      and "\<forall>v\<in>set (concat loc). 2 * \<bar>fin_val v\<bar> < float_overflow"
  shows "\<exists>out. normalize_localisations loc = Inr out \<and> normalize_localisations out = Inr out"
  using assms by (rule normalize_localisations_twice)

theorem normalize_localisations_idempotent_witness:
  "list_all is_fin (concat [[Fin 3, Fin (- 1)], [Fin 0, Fin 3]]) \<and>
   (\<exists>v\<in>set (concat [[Fin 3, Fin (- 1)], [Fin 0, Fin 3]]). v \<noteq> Fin 0) \<and>
   list_all (\<lambda>v. 2 * \<bar>fin_val v\<bar> < float_overflow)
     (concat [[Fin 3, Fin (- 1)], [Fin 0, Fin 3]]) \<and>
   normalize_localisations [[Fin 3, Fin (- 1)], [Fin 0, Fin 3]] =
     Inr [[Fin (- (1/2)), Fin (- (1/6))], [Fin 0, Fin (- (1/2))]] \<and>
   (\<exists>out. normalize_localisations [[Fin 3, Fin (- 1)], [Fin 0, Fin 3]] = Inr out \<and>
      normalize_localisations out = Inr out)"
proof -
  have h1: "\<forall>v\<in>set (concat [[Fin 3, Fin (- 1)], [Fin 0, Fin 3]]). is_fin v" by simp
  have h2: "\<exists>v\<in>set (concat [[Fin 3, Fin (- 1)], [Fin 0, Fin 3]]). v \<noteq> Fin 0" by simp
  have h3: "\<forall>v\<in>set (concat [[Fin 3, Fin (- 1)], [Fin 0, Fin 3]]).
              2 * \<bar>fin_val v\<bar> < float_overflow"
    using float_overflow_gt by simp
  have ev: "normalize_localisations [[Fin 3, Fin (- 1)], [Fin 0, Fin 3]] =
     Inr [[Fin (- (1/2)), Fin (- (1/6))], [Fin 0, Fin (- (1/2))]]"
    by (simp add: normalize_localisations_def np_max_def np_min_def fl_max_def fl_min_def
        amap_def bindE_def small_floats)
  have h0: "list_all is_fin (concat [[Fin 3, Fin (- 1)], [Fin 0, Fin 3]])" by simp
  have h4: "list_all (\<lambda>v. 2 * \<bar>fin_val v\<bar> < float_overflow)
     (concat [[Fin 3, Fin (- 1)], [Fin 0, Fin 3]])"
    using float_overflow_gt by simp
  show ?thesis
    using h0 h2 h4 ev normalize_localisations_idempotent[OF h1 h2 h3] by blast
qed

text \<open>
  C8 in the words of the specification fails where the divisor overflows: on the array
  of \<open>2 ^ 1023\<close> and its negative (finite, not all zero) the divisor \<open>2 * abs(Kmax)\<close> is
  infinite and the function returns zeros; applied to these zeros it divides zero by zero
  and returns \<open>nan\<close>, not the zeros.
\<close>

theorem normalize_localisations_overflow_not_idempotent:
  "is_fin (Fin (2 ^ 1023)) \<and> is_fin (Fin (- (2 ^ 1023))) \<and> Fin (2 ^ 1023) \<noteq> Fin 0 \<and>
   normalize_localisations [[Fin (2 ^ 1023), Fin (- (2 ^ 1023))]] = Inr [[Fin 0, Fin 0]] \<and>
   normalize_localisations [[Fin 0, Fin 0]] = Inr [[NaN, NaN]] \<and>
   normalize_localisations [[Fin 0, Fin 0]] \<noteq> Inr [[Fin 0, Fin 0]]"
proof -
  have a: "normalize_localisations [[Fin (2 ^ 1023), Fin (- (2 ^ 1023))]] = Inr [[Fin 0, Fin 0]]"
    by (simp add: normalize_localisations_def np_max_def np_min_def fl_max_def fl_min_def
        amap_def bindE_def f64_def float_overflow_def)
  have b: "normalize_localisations [[Fin 0, Fin 0]] = Inr [[NaN, NaN]]"
    by (simp add: normalize_localisations_def np_max_def np_min_def fl_max_def fl_min_def
        amap_def bindE_def signed_inf_def)
  show ?thesis unfolding a b by simp
qed
text \<open>
  C1, as the code has it. On every successful call the returned region-of-interest mask
  is the first channel of the image, complemented bit by bit and binarised, then mirrored
  left to right and rotated by 90 degrees counter-clockwise: together, its transpose.
\<close>

theorem roi_mask_is_transposed:
  assumes "load_exbaboon_512_retrospection e sigma mask_type acc_factor =
             (t, Inr (ref, loc, kspace, bm, info))"
  shows "\<exists>img. images e ''Ref_N512_NEX32_mask.png'' = Some img \<and>
           bm = rot90 (fliplr (binarize (amap hd img))) \<and>
           bm = transpose (binarize (amap hd img))"
proof -
  from load_success[OF assms] obtain img ch where
    "images e ''Ref_N512_NEX32_mask.png'' = Some img" "first_channel img = Inr ch"
    "bm = rot90 (fliplr (binarize ch))" by blast
  then show ?thesis
    using first_channel_Inr[of img ch] by (simp add: rot90_fliplr)
qed

theorem roi_mask_is_transposed_witness:
  "load_exbaboon_512_retrospection demo_env 1 ''radial'' (Some 8) =
     ([''Ref_babouin_NEX32.mat'', ''samples_radial_x8_64x3072.mat'',
       ''values_radial_x8_64x3072.mat'', ''Ref_N512_NEX32_mask.png''],
      Inr ([[(Fin 0, Fin 0), (Fin 1, Fin 0)]], [[Fin (1/4), Fin (- (1/2))]], [[(Fin 1, Fin 2)]],
           [[0, 0], [1, 0]],
           make_info 1 (Fin (20 * ln 2)) (Fin (20 * ln 2)) ''radial'' (Some 8))) \<and>
   (\<exists>img. images demo_env ''Ref_N512_NEX32_mask.png'' = Some img \<and>
      [[0, 0], [1, 0]] = rot90 (fliplr (binarize (amap hd img))) \<and>
      [[0, 0], [1, 0]] = transpose (binarize (amap hd img)))"
  using roi_mask_is_transposed[OF demo_full] demo_full by blast

text \<open>
  C1 in the words of the specification fails on the small directory: the call returns the mask
  \<open>[[0, 0], [1, 0]]\<close>, whereas a rotation by 180 degrees followed by a horizontal mirror
  of the binarised channel gives \<open>[[0, 0], [0, 1]]\<close>.
\<close>

theorem roi_mask_not_rotated_180:
  "load_exbaboon_512_retrospection demo_env 1 ''radial'' (Some 8) =
     ([''Ref_babouin_NEX32.mat'', ''samples_radial_x8_64x3072.mat'',
       ''values_radial_x8_64x3072.mat'', ''Ref_N512_NEX32_mask.png''],
      Inr ([[(Fin 0, Fin 0), (Fin 1, Fin 0)]], [[Fin (1/4), Fin (- (1/2))]], [[(Fin 1, Fin 2)]],
           [[0, 0], [1, 0]],
           make_info 1 (Fin (20 * ln 2)) (Fin (20 * ln 2)) ''radial'' (Some 8))) \<and>
   images demo_env ''Ref_N512_NEX32_mask.png'' =
     Some [[[255, 255, 255], [0, 0, 0]], [[255, 255, 255], [255, 255, 255]]] \<and>
   spec_binary_roi_mask [[[255, 255, 255], [0, 0, 0]], [[255, 255, 255], [255, 255, 255]]] =
     [[0, 0], [0, 1]] \<and>
   [[0, 0], [1, 0]] \<noteq> spec_binary_roi_mask
     [[[255, 255, 255], [0, 0, 0]], [[255, 255, 255], [255, 255, 255]]]"
proof -
  have s: "spec_binary_roi_mask [[[255, 255, 255], [0, 0, 0]], [[255, 255, 255], [255, 255, 255]]] =
     [[0, 0], [0, 1]]"
    by (simp add: spec_binary_roi_mask_def spec_rot180_def binarize_def amap_def)
  have i: "images demo_env ''Ref_N512_NEX32_mask.png'' =
     Some [[[255, 255, 255], [0, 0, 0]], [[255, 255, 255], [255, 255, 255]]]"
    by (simp add: demo_env_def)
  show ?thesis unfolding s using demo_full i by simp
qed


text \<open>
  C5. On every successful call the entry \<open>snr\<close> is 20 times the natural logarithm of the
  norm of the k-space data before noise over the norm of the noise, and the entry \<open>psnr\<close>
  is 20 times the natural logarithm of the largest modulus of that data over the norm of
  the noise. Where the data and the noise are the finite complex arrays \<open>K\<close> and \<open>N\<close>, and
  the sums of squares and the two ratios lie in the normal range of float64, the entries
  are \<open>20 * ln (sqrt (\<Sum>|K|\<^sup>2) / sqrt (\<Sum>|N|\<^sup>2))\<close> and \<open>20 * ln (max |K| / sqrt (\<Sum>|N|\<^sup>2))\<close>.
\<close>

theorem snr_psnr_natural_logarithm:
  assumes "load_exbaboon_512_retrospection e sigma mask_type acc_factor =
             (t, Inr (ref, loc, kspace, bm, info))"
  shows "\<exists>t0 ref0 kpre noise peak.
           load_before_noise e mask_type acc_factor = (t0, Inr (ref0, loc, kpre)) \<and>
           make_noise e sigma kpre = Inr noise \<and>
           np_max (amap c_abs kpre) = Inr peak \<and>
           info ''snr'' = Some (PyFloat (fl_mul (Fin 20)
              (fl_log (fl_div (norm_complex kpre) (norm_complex noise))))) \<and>
           info ''psnr'' = Some (PyFloat (fl_mul (Fin 20)
              (fl_log (fl_div peak (norm_complex noise))))) \<and>
           (\<forall>K N. kpre = amap c_fin K \<and> noise = amap c_fin N \<and>
              normal_range (sum_sq K) \<and> normal_range (sum_sq N) \<and>
              normal_range (sqrt (sum_sq K) / sqrt (sum_sq N)) \<and>
              normal_range (Max (set (map cmod (concat K))) / sqrt (sum_sq N)) \<longrightarrow>
              info ''snr'' =
                Some (PyFloat (Fin (20 * ln (sqrt (sum_sq K) / sqrt (sum_sq N))))) \<and>
              info ''psnr'' =
                Some (PyFloat (Fin (20 * ln (Max (set (map cmod (concat K))) / sqrt (sum_sq N))))))"
proof -
  from load_success[OF assms] obtain t0 ref0 kpre noise peak where
    a: "load_before_noise e mask_type acc_factor = (t0, Inr (ref0, loc, kpre))"
       "make_noise e sigma kpre = Inr noise" "np_max (amap c_abs kpre) = Inr peak"
       "info = make_info sigma (snr_of kpre noise) (psnr_of peak noise) mask_type acc_factor"
    by blast
  have s: "info ''snr'' = Some (PyFloat (fl_mul (Fin 20)
              (fl_log (fl_div (norm_complex kpre) (norm_complex noise)))))"
    unfolding a(4) by (simp only: make_info_lookup snr_of_def)
  have p: "info ''psnr'' = Some (PyFloat (fl_mul (Fin 20)
              (fl_log (fl_div peak (norm_complex noise)))))"
    unfolding a(4) by (simp only: make_info_lookup psnr_of_def)
  have c: "info ''snr'' =
             Some (PyFloat (Fin (20 * ln (sqrt (sum_sq K) / sqrt (sum_sq N))))) \<and>
           info ''psnr'' =
             Some (PyFloat (Fin (20 * ln (Max (set (map cmod (concat K))) / sqrt (sum_sq N)))))"
    if h: "kpre = amap c_fin K \<and> noise = amap c_fin N \<and>
           normal_range (sum_sq K) \<and> normal_range (sum_sq N) \<and>
           normal_range (sqrt (sum_sq K) / sqrt (sum_sq N)) \<and>
           normal_range (Max (set (map cmod (concat K))) / sqrt (sum_sq N))" for K N
  proof -
    from h have k: "kpre = amap c_fin K" and n: "noise = amap c_fin N"
      and sk: "normal_range (sum_sq K)" and sn: "normal_range (sum_sq N)"
      and r1: "normal_range (sqrt (sum_sq K) / sqrt (sum_sq N))"
      and r2: "normal_range (Max (set (map cmod (concat K))) / sqrt (sum_sq N))"
      by simp_all
    have kb: "sum_sq K < 2 ^ 1023" and nb: "sum_sq N < 2 ^ 1023"
      using sk sn by (simp_all only: normal_range_def)
    have nk: "norm_complex kpre = Fin (sqrt (sum_sq K))"
      unfolding k using kb float_overflow_large by (intro norm_complex_fin) linarith
    have nn: "norm_complex noise = Fin (sqrt (sum_sq N))"
      unfolding n using nb float_overflow_large by (intro norm_complex_fin) linarith
    have ne: "concat K \<noteq> []"
      using normal_range_pos[OF sk] sum_sq_empty[of K] by auto
    have pk: "peak = Fin (Max (set (map cmod (concat K))))"
      using a(3) np_max_abs_fin[OF ne kb] unfolding k by simp
    have pos: "0 < sqrt (sum_sq N)" using normal_range_pos[OF sn] by simp
    show ?thesis
      unfolding s p nk nn pk
      by (simp only: log_ratio_fin[OF pos r1] log_ratio_fin[OF pos r2] simp_thms)
  qed
  show ?thesis using a(1-3) s p c by blast
qed

theorem snr_psnr_natural_logarithm_witness:
  "load_exbaboon_512_retrospection demo_env 1 ''radial'' (Some 15) =
     ([''Ref_babouin_NEX32.mat'', ''samples_radial_x15_34x3072.mat'',
       ''values_radial_x15_34x3072.mat'', ''Ref_N512_NEX32_mask.png''],
      Inr ([[(Fin 0, Fin 0), (Fin 1, Fin 0)]], [[Fin (1/4), Fin (- (1/2))]],
           [[(Fin 10, Fin 12), (Fin 8, Fin 0)]],
           [[0, 0], [1, 0]],
           make_info 1 (Fin (20 * ln 17)) (Fin (20 * ln 15)) ''radial'' (Some 15))) \<and>
   snd (load_before_noise demo_env ''radial'' (Some 15)) =
     Inr ([[Fin 0, Fin 1]], [[Fin (1/4), Fin (- (1/2))]],
          amap c_fin [[Complex 9 12, Complex 8 0]]) \<and>
   make_noise demo_env 1 (amap c_fin [[Complex 9 12, Complex 8 0]]) =
     Inr (amap c_fin [[Complex 1 0, Complex 0 0]]) \<and>
   normal_range (sum_sq [[Complex 9 12, Complex 8 0]]) \<and>
   normal_range (sum_sq [[Complex 1 0, Complex 0 0]]) \<and>
   normal_range (sqrt (sum_sq [[Complex 9 12, Complex 8 0]]) /
                 sqrt (sum_sq [[Complex 1 0, Complex 0 0]])) \<and>
   normal_range (Max (set (map cmod (concat [[Complex 9 12, Complex 8 0]]))) /
                 sqrt (sum_sq [[Complex 1 0, Complex 0 0]])) \<and>
   sqrt (sum_sq [[Complex 9 12, Complex 8 0]]) / sqrt (sum_sq [[Complex 1 0, Complex 0 0]]) = 17 \<and>
   Max (set (map cmod (concat [[Complex 9 12, Complex 8 0]]))) /
     sqrt (sum_sq [[Complex 1 0, Complex 0 0]]) = 15 \<and>
   make_info 1 (Fin (20 * ln 17)) (Fin (20 * ln 15)) ''radial'' (Some 15) ''snr'' =
     Some (PyFloat (Fin (20 * ln (sqrt (sum_sq [[Complex 9 12, Complex 8 0]]) /
                                  sqrt (sum_sq [[Complex 1 0, Complex 0 0]]))))) \<and>
   make_info 1 (Fin (20 * ln 17)) (Fin (20 * ln 15)) ''radial'' (Some 15) ''psnr'' =
     Some (PyFloat (Fin (20 * ln (Max (set (map cmod (concat [[Complex 9 12, Complex 8 0]]))) /
                                  sqrt (sum_sq [[Complex 1 0, Complex 0 0]])))))"
proof -
  let ?K = "[[Complex 9 12, Complex 8 0]]"
  let ?N = "[[Complex 1 0, Complex 0 0]]"
  let ?info = "make_info 1 (Fin (20 * ln 17)) (Fin (20 * ln 15)) ''radial'' (Some 15)"
  have ak: "amap c_fin ?K = [[(Fin 9, Fin 12), (Fin 8, Fin 0)]]"
    by (simp add: amap_def c_fin_def)
  have an: "amap c_fin ?N = [[(Fin 1, Fin 0), (Fin 0, Fin 0)]]"
    by (simp add: amap_def c_fin_def)
  have sk: "sum_sq ?K = 289" by (simp add: sum_sq_def)
  have sn: "sum_sq ?N = 1" by (simp add: sum_sq_def)
  have mk: "Max (set (map cmod (concat ?K))) = 15"
    by (simp add: cmod_def sqrt_squares)
  have r1: "sqrt (sum_sq ?K) / sqrt (sum_sq ?N) = 17" unfolding sk sn by (simp add: sqrt_squares)
  have r2: "Max (set (map cmod (concat ?K))) / sqrt (sum_sq ?N) = 15" unfolding mk sn by simp
  have n1: "normal_range (sum_sq ?K)" unfolding sk by (rule normal_range_small) simp_all
  have n2: "normal_range (sum_sq ?N)" unfolding sn by (rule normal_range_small) simp_all
  have n3: "normal_range (sqrt (sum_sq ?K) / sqrt (sum_sq ?N))"
    unfolding r1 by (rule normal_range_small) simp_all
  have n4: "normal_range (Max (set (map cmod (concat ?K))) / sqrt (sum_sq ?N))"
    unfolding r2 by (rule normal_range_small) simp_all
  have b: "snd (load_before_noise demo_env ''radial'' (Some 15)) =
     Inr ([[Fin 0, Fin 1]], [[Fin (1/4), Fin (- (1/2))]], amap c_fin ?K)"
    unfolding ak demo_before_radial15 by simp
  have m: "make_noise demo_env 1 (amap c_fin ?K) = Inr (amap c_fin ?N)"
    unfolding ak an by (rule demo_noise2)
  from snr_psnr_natural_logarithm[OF demo_full15] obtain t0 ref0 kpre noise where
    w: "load_before_noise demo_env ''radial'' (Some 15) =
          (t0, Inr (ref0, [[Fin (1/4), Fin (- (1/2))]], kpre))"
       "make_noise demo_env 1 kpre = Inr noise"
       "\<forall>K N. kpre = amap c_fin K \<and> noise = amap c_fin N \<and>
              normal_range (sum_sq K) \<and> normal_range (sum_sq N) \<and>
              normal_range (sqrt (sum_sq K) / sqrt (sum_sq N)) \<and>
              normal_range (Max (set (map cmod (concat K))) / sqrt (sum_sq N)) \<longrightarrow>
              ?info ''snr'' =
                Some (PyFloat (Fin (20 * ln (sqrt (sum_sq K) / sqrt (sum_sq N))))) \<and>
              ?info ''psnr'' =
                Some (PyFloat (Fin (20 * ln (Max (set (map cmod (concat K))) / sqrt (sum_sq N)))))"
    by blast
  have k: "kpre = amap c_fin ?K" using w(1) b by simp
  have n: "noise = amap c_fin ?N" using w(2) m unfolding k by simp
  from w(3) k n n1 n2 n3 n4 have
    "?info ''snr'' = Some (PyFloat (Fin (20 * ln (sqrt (sum_sq ?K) / sqrt (sum_sq ?N))))) \<and>
     ?info ''psnr'' =
       Some (PyFloat (Fin (20 * ln (Max (set (map cmod (concat ?K))) / sqrt (sum_sq ?N)))))"
    by blast
  then show ?thesis using demo_full15 b m n1 n2 n3 n4 r1 r2 by blast
qed
lemma zeros_entries: "z \<in> set (concat (zeros s)) \<Longrightarrow> z = (Fin 0, Fin 0)"
  by (auto simp: zeros_def)

lemma snd_bindIO_raise:
  "snd m = Inr x \<Longrightarrow> snd (bindIO m (\<lambda>x. raise err)) = Inl err"
  by (simp add: bindIO_def raise_def)

lemma fst_bindIO_raise: "fst (bindIO m (\<lambda>x. raise err)) = fst m"
  by (cases "snd m") (simp_all add: bindIO_def raise_def)

lemma snd_bindIO_raise_Inl:
  "snd m = Inl err' \<Longrightarrow> snd (bindIO m (\<lambda>x. raise err)) = Inl err'"
  by (simp add: bindIO_def)

lemma load_ref_Inr:
  "snd (load_ref e) = Inr ref \<Longrightarrow>
     \<exists>vars im. real_mats e ''Ref_babouin_NEX32.mat'' = Some vars \<and> vars ''im_ref'' = Some im \<and>
       ref = l2_normalize (amap fl_of_real im)"
  by (auto simp: load_ref_def bindIO_def loadmat_real_def lookup_var_def ret_def
      split: option.splits sum.splits)

lemma load_ref_missing:
  "real_mats e ''Ref_babouin_NEX32.mat'' = None \<Longrightarrow>
     snd (load_ref e) = Inl (IOError ''Ref_babouin_NEX32.mat'')"
  by (simp add: load_ref_def bindIO_def loadmat_real_def lookup_var_def)

lemma demo_invalid: "invalid_arguments ''radial'' (Some 3)"
  "invalid_arguments ''cartesianR4'' (Some 4)" "invalid_arguments ''unknown'' None"
  by (simp_all add: invalid_arguments_def)

text \<open>
  C3. Once the reference image has been loaded, the call raises the module's ValueError
  if and only if the arguments are invalid in the sense of the specification; the message
  is the one of the branch and contains the offending value as \<open>format\<close> prints it.
\<close>

theorem invalid_argument_error_iff:
  assumes "snd (load_ref e) = Inr ref"
  shows "((\<exists>msg. snd (load_exbaboon_512_retrospection e sigma mask_type acc_factor) =
              Inl (ValueError msg)) \<longleftrightarrow> invalid_arguments mask_type acc_factor) \<and>
         (invalid_arguments mask_type acc_factor \<longrightarrow>
            snd (load_exbaboon_512_retrospection e sigma mask_type acc_factor) =
              Inl (ValueError (raised_message mask_type acc_factor))) \<and>
         sublist (offending_value mask_type acc_factor) (raised_message mask_type acc_factor)"
proof -
  have a: "snd (load_exbaboon_512_retrospection e sigma mask_type acc_factor) =
              Inl (ValueError (raised_message mask_type acc_factor))"
    if "invalid_arguments mask_type acc_factor"
    unfolding load_invalid[OF that] using assms by (rule snd_bindIO_raise)
  have b: "invalid_arguments mask_type acc_factor"
    if "snd (load_exbaboon_512_retrospection e sigma mask_type acc_factor) = Inl (ValueError msg)"
    for msg
    using that load_valid_no_VE[of mask_type acc_factor e sigma msg] by blast
  show ?thesis using a b raised_message_names by blast
qed

theorem invalid_argument_error_iff_witness:
  "snd (load_ref demo_env) = Inr [[Fin 0, Fin 1]] \<and>
   invalid_arguments ''radial'' (Some 3) \<and>
   snd (load_exbaboon_512_retrospection demo_env 0 ''radial'' (Some 3)) =
     Inl (ValueError ''acc_factor should be in [8, 15], got 3'') \<and>
   sublist ''3'' ''acc_factor should be in [8, 15], got 3''"
proof -
  have h: "snd (load_ref demo_env) = Inr [[Fin 0, Fin 1]]" by (simp add: demo_ref)
  have m: "raised_message ''radial'' (Some 3) = ''acc_factor should be in [8, 15], got 3''"
    by (simp add: raised_message_def msg_acc_def format_acc_def str_int_def nat_digits.simps)
  have v: "offending_value ''radial'' (Some 3) = ''3''"
    by (simp add: offending_value_def format_acc_def str_int_def nat_digits.simps)
  show ?thesis
    using invalid_argument_error_iff[OF h, of 0 "''radial''" "Some 3"] h demo_invalid(1)
    unfolding m v by blast
qed

text \<open>
  C9. With invalid arguments the only file read is the reference image, so no file of the
  branch of the mask type (and no later file) is touched; the call ends in an exception,
  never in a result, and that exception is the module's ValueError whenever the reference
  image could be loaded.
\<close>

theorem invalid_arguments_read_no_branch_file:
  assumes "invalid_arguments mask_type acc_factor"
  shows "fst (load_exbaboon_512_retrospection e sigma mask_type acc_factor) =
           [''Ref_babouin_NEX32.mat''] \<and>
         (\<exists>err. snd (load_exbaboon_512_retrospection e sigma mask_type acc_factor) = Inl err) \<and>
         (\<forall>ref. snd (load_ref e) = Inr ref \<longrightarrow>
            snd (load_exbaboon_512_retrospection e sigma mask_type acc_factor) =
              Inl (ValueError (raised_message mask_type acc_factor)))"
proof -
  let ?r = "bindIO (load_ref e) (\<lambda>ref. raise (ValueError (raised_message mask_type acc_factor))) ::
    (cfl array \<times> fl array \<times> cfl array \<times> 8 word array \<times> (string \<rightharpoonup> pyval)) io"
  have "fst ?r = [''Ref_babouin_NEX32.mat'']"
    by (simp add: fst_bindIO_raise load_ref_trace)
  moreover have "\<exists>err. snd ?r = Inl err"
    by (cases "snd (load_ref e)") (simp_all add: bindIO_def raise_def)
  moreover have "\<forall>ref. snd (load_ref e) = Inr ref \<longrightarrow>
      snd ?r = Inl (ValueError (raised_message mask_type acc_factor))"
    by (simp add: snd_bindIO_raise)
  ultimately show ?thesis unfolding load_invalid[OF assms] by blast
qed

theorem invalid_arguments_read_no_branch_file_witness:
  "invalid_arguments ''cartesianR4'' (Some 4) \<and>
   snd (load_ref demo_env) = Inr [[Fin 0, Fin 1]] \<and>
   load_exbaboon_512_retrospection demo_env 0 ''cartesianR4'' (Some 4) =
     ([''Ref_babouin_NEX32.mat''], Inl (ValueError (msg_cartesian (Some 4)))) \<and>
   format_acc (Some 4) = ''4''"
proof -
  have h: "snd (load_ref demo_env) = Inr [[Fin 0, Fin 1]]" by (simp add: demo_ref)
  have m: "raised_message ''cartesianR4'' (Some 4) = msg_cartesian (Some 4)"
    by (simp add: raised_message_def)
  have f: "format_acc (Some 4) = ''4''"
    by (simp add: format_acc_def str_int_def nat_digits.simps)
  from invalid_arguments_read_no_branch_file[OF demo_invalid(2), of demo_env 0] h
  have "fst (load_exbaboon_512_retrospection demo_env 0 ''cartesianR4'' (Some 4)) =
           [''Ref_babouin_NEX32.mat'']"
       "snd (load_exbaboon_512_retrospection demo_env 0 ''cartesianR4'' (Some 4)) =
           Inl (ValueError (msg_cartesian (Some 4)))"
    unfolding m by blast+
  then have "load_exbaboon_512_retrospection demo_env 0 ''cartesianR4'' (Some 4) =
     ([''Ref_babouin_NEX32.mat''], Inl (ValueError (msg_cartesian (Some 4))))"
    by (simp add: prod_eq_iff)
  then show ?thesis using demo_invalid(2) h f by blast
qed

text \<open>
  C10. With invalid arguments the call is exactly: load and normalise the reference image
  (lines 86 to 88), then raise. The read is always attempted first; the ValueError arises
  only after the image has been read and normalised, and a missing image file surfaces as
  the read's own failure instead.
\<close>

theorem reference_image_read_precedes_validation:
  assumes "invalid_arguments mask_type acc_factor"
  shows "load_exbaboon_512_retrospection e sigma mask_type acc_factor =
           bindIO (load_ref e) (\<lambda>ref. raise (ValueError (raised_message mask_type acc_factor))) \<and>
         hd (fst (load_exbaboon_512_retrospection e sigma mask_type acc_factor)) =
           ''Ref_babouin_NEX32.mat'' \<and>
         (\<forall>msg. snd (load_exbaboon_512_retrospection e sigma mask_type acc_factor) =
                  Inl (ValueError msg) \<longrightarrow>
            (\<exists>vars im. real_mats e ''Ref_babouin_NEX32.mat'' = Some vars \<and>
               vars ''im_ref'' = Some im \<and>
               snd (load_ref e) = Inr (l2_normalize (amap fl_of_real im)))) \<and>
         (real_mats e ''Ref_babouin_NEX32.mat'' = None \<longrightarrow>
            snd (load_exbaboon_512_retrospection e sigma mask_type acc_factor) =
              Inl (IOError ''Ref_babouin_NEX32.mat''))"
proof -
  let ?msg = "raised_message mask_type acc_factor"
  let ?r = "bindIO (load_ref e) (\<lambda>ref. raise (ValueError ?msg)) ::
    (cfl array \<times> fl array \<times> cfl array \<times> 8 word array \<times> (string \<rightharpoonup> pyval)) io"
  have eq: "load_exbaboon_512_retrospection e sigma mask_type acc_factor = ?r"
    by (rule load_invalid[OF assms])
  have tr: "hd (fst ?r) = ''Ref_babouin_NEX32.mat''"
    by (simp add: fst_bindIO_raise load_ref_trace)
  have ve: "\<exists>vars im. real_mats e ''Ref_babouin_NEX32.mat'' = Some vars \<and>
               vars ''im_ref'' = Some im \<and> snd (load_ref e) = Inr (l2_normalize (amap fl_of_real im))"
    if "snd ?r = Inl (ValueError msg)" for msg
  proof (cases "snd (load_ref e)")
    case (Inl err)
    then have "snd ?r = Inl err" by (rule snd_bindIO_raise_Inl)
    with that have "err = ValueError msg" by simp
    with Inl load_ref_no_VE[of e msg] show ?thesis by simp
  next
    case (Inr ref)
    with load_ref_Inr[OF Inr] show ?thesis by auto
  qed
  have io: "snd ?r = Inl (IOError ''Ref_babouin_NEX32.mat'')"
    if "real_mats e ''Ref_babouin_NEX32.mat'' = None"
    using load_ref_missing[OF that] by (rule snd_bindIO_raise_Inl)
  show ?thesis unfolding eq using tr ve io by blast
qed

theorem reference_image_read_precedes_validation_witness:
  "invalid_arguments ''unknown'' None \<and>
   load_exbaboon_512_retrospection demo_env 0 ''unknown'' None =
     ([''Ref_babouin_NEX32.mat''], Inl (ValueError (msg_type ''unknown''))) \<and>
   load_ref demo_env = ([''Ref_babouin_NEX32.mat''], Inr [[Fin 0, Fin 1]])"
proof -
  have m: "raised_message ''unknown'' None = msg_type ''unknown''"
    by (simp add: raised_message_def)
  from reference_image_read_precedes_validation[OF demo_invalid(3), of demo_env 0]
  have "load_exbaboon_512_retrospection demo_env 0 ''unknown'' None =
           bindIO (load_ref demo_env) (\<lambda>ref. raise (ValueError (msg_type ''unknown'')))"
    unfolding m by blast
  then have "load_exbaboon_512_retrospection demo_env 0 ''unknown'' None =
     ([''Ref_babouin_NEX32.mat''], Inl (ValueError (msg_type ''unknown'')))"
    by (simp add: demo_ref bindIO_def raise_def)
  then show ?thesis using demo_invalid(3) demo_ref by blast
qed


text \<open>
  C4. On a successful call with \<open>cartesianR4\<close> and no acceleration factor, the k-space
  data before noise is the elementwise product of the shifted mask and the transform of
  the normalised reference image, the sampling locations are the conversion of that
  shifted mask, and the returned k-space data is that product plus the noise. Where the
  mask and the transform have the same shape the product has that shape too, and its entry
  at a finite entry \<open>a + b i\<close> of the transform under the mask value \<open>m\<close> is
  \<open>m * a + (m * b) i\<close>, as long as these two products stay within the float64 range.
\<close>

theorem cartesian_kspace_is_masked_transform:
  assumes "load_exbaboon_512_retrospection e sigma ''cartesianR4'' None =
             (t, Inr (ref, loc, kspace, bm, info))"
  shows "\<exists>vars im vars' m mask f kpre noise.
           real_mats e ''Ref_babouin_NEX32.mat'' = Some vars \<and> vars ''im_ref'' = Some im \<and>
           real_mats e ''mask_BrainPhantom512_R4.mat'' = Some vars' \<and> vars' ''mask'' = Some m \<and>
           ifftshift e m = Some mask \<and>
           fft2 e (l2_normalize (amap fl_of_real im)) = Some f \<and>
           np_binop (\<lambda>x z. c_mul (c_of_fl (fl_of_real x)) z) mask f = Inr kpre \<and>
           convert_mask_to_locations e mask = Some loc \<and>
           snd (load_before_noise e ''cartesianR4'' None) =
             Inr (l2_normalize (amap fl_of_real im), loc, kpre) \<and>
           make_noise e sigma kpre = Inr noise \<and>
           np_binop c_add kpre noise = Inr kspace \<and>
           (rect mask \<and> rect f \<and> shape mask = shape f \<longrightarrow>
              length kpre = length mask \<and>
              (\<forall>i<length mask. length (kpre ! i) = length (mask ! i) \<and>
                 (\<forall>j<length (mask ! i). \<forall>a b.
                    f ! i ! j = (Fin a, Fin b) \<and> \<bar>mask ! i ! j\<bar> \<le> max_float \<and>
                    in_range (mask ! i ! j * a) \<and> in_range (mask ! i ! j * b) \<longrightarrow>
                    kpre ! i ! j = (Fin (mask ! i ! j * a), Fin (mask ! i ! j * b)))))"
proof -
  let ?g = "\<lambda>x z. c_mul (c_of_fl (fl_of_real x)) z"
  from load_success[OF assms] obtain t0 ref0 kpre noise where
    a: "load_before_noise e ''cartesianR4'' None = (t0, Inr (ref0, loc, kpre))"
       "make_noise e sigma kpre = Inr noise" "np_binop c_add kpre noise = Inr kspace"
    by blast
  from load_before_noise_success[OF a(1)] obtain vars im t' where
    b: "real_mats e ''Ref_babouin_NEX32.mat'' = Some vars" "vars ''im_ref'' = Some im"
       "ref0 = l2_normalize (amap fl_of_real im)"
       "load_loc_kspace e ref0 ''cartesianR4'' None = (t', Inr (loc, kpre))"
    by blast
  from load_loc_kspace_cartesian_success[OF b(4)] obtain vars' m mask f where
    c: "real_mats e ''mask_BrainPhantom512_R4.mat'' = Some vars'" "vars' ''mask'' = Some m"
       "ifftshift e m = Some mask" "convert_mask_to_locations e mask = Some loc"
       "fft2 e ref0 = Some f" "np_binop ?g mask f = Inr kpre"
    by blast
  have s: "snd (load_before_noise e ''cartesianR4'' None) =
             Inr (l2_normalize (amap fl_of_real im), loc, kpre)"
    using a(1) b(3) by simp
  have ent: "rect mask \<and> rect f \<and> shape mask = shape f \<longrightarrow>
              length kpre = length mask \<and>
              (\<forall>i<length mask. length (kpre ! i) = length (mask ! i) \<and>
                 (\<forall>j<length (mask ! i). \<forall>a b.
                    f ! i ! j = (Fin a, Fin b) \<and> \<bar>mask ! i ! j\<bar> \<le> max_float \<and>
                    in_range (mask ! i ! j * a) \<and> in_range (mask ! i ! j * b) \<longrightarrow>
                    kpre ! i ! j = (Fin (mask ! i ! j * a), Fin (mask ! i ! j * b))))"
  proof (intro impI)
    assume h: "rect mask \<and> rect f \<and> shape mask = shape f"
    then have rm: "rect mask" and rf: "rect f" and sh: "shape mask = shape f" by simp_all
    have k: "kpre = map2 (map2 ?g) mask f"
      using np_binop_same_shape[OF rm rf sh, of ?g] c(6) by simp
    have lf: "length f = length mask" using sh by (simp add: shape_def)
    have rows: "length (f ! i) = length (mask ! i)" if "i < length mask" for i
      using rectD[OF rm, of "mask ! i"] rectD[OF rf, of "f ! i"] that lf sh by simp
    show "length kpre = length mask \<and>
              (\<forall>i<length mask. length (kpre ! i) = length (mask ! i) \<and>
                 (\<forall>j<length (mask ! i). \<forall>a b.
                    f ! i ! j = (Fin a, Fin b) \<and> \<bar>mask ! i ! j\<bar> \<le> max_float \<and>
                    in_range (mask ! i ! j * a) \<and> in_range (mask ! i ! j * b) \<longrightarrow>
                    kpre ! i ! j = (Fin (mask ! i ! j * a), Fin (mask ! i ! j * b))))"
    proof (intro conjI allI impI)
      show "length kpre = length mask" unfolding k using lf by simp
    next
      fix i assume i: "i < length mask"
      show "length (kpre ! i) = length (mask ! i)" unfolding k using i lf rows[OF i] by simp
    next
      fix i j a b
      assume i: "i < length mask" and j: "j < length (mask ! i)"
        and e: "f ! i ! j = (Fin a, Fin b) \<and> \<bar>mask ! i ! j\<bar> \<le> max_float \<and>
                in_range (mask ! i ! j * a) \<and> in_range (mask ! i ! j * b)"
      have "kpre ! i ! j = ?g (mask ! i ! j) (f ! i ! j)"
        by (rule np_binop_nth[OF rm rf sh c(6) i j])
      also have "\<dots> = (Fin (mask ! i ! j * a), Fin (mask ! i ! j * b))"
        using e c_mul_real_fin[of "mask ! i ! j" a b] by simp
      finally show "kpre ! i ! j = (Fin (mask ! i ! j * a), Fin (mask ! i ! j * b))" .
    qed
  qed
  from a(2,3) b(1,2) c s ent show ?thesis unfolding b(3) by blast
qed

theorem cartesian_kspace_is_masked_transform_witness:
  "load_exbaboon_512_retrospection demo_env 1 ''cartesianR4'' None =
     ([''Ref_babouin_NEX32.mat'', ''mask_BrainPhantom512_R4.mat'', ''Ref_N512_NEX32_mask.png''],
      Inr ([[(Fin 0, Fin 0), (Fin 1, Fin 0)]], [[Fin (- (1/2)), Fin (- (1/2))]],
           [[(Fin 2, Fin 0), (Fin 0, Fin 0)]],
           [[0, 0], [1, 0]],
           make_info 1 (Fin 0) (Fin 0) ''cartesianR4'' None)) \<and>
   ifftshift demo_env [[0, 1]] = Some [[1, 0]] \<and>
   l2_normalize (amap fl_of_real [[0, 2]]) = [[Fin 0, Fin 1]] \<and>
   fft2 demo_env [[Fin 0, Fin 1]] = Some [[(Fin 1, Fin 0), (Fin (- 1), Fin 0)]] \<and>
   rect [[1, 0 :: real]] \<and> rect [[(Fin 1, Fin 0), (Fin (- 1), Fin 0)]] \<and>
   shape [[1, 0 :: real]] = shape [[(Fin 1, Fin 0), (Fin (- 1), Fin 0)]] \<and>
   \<bar>[[1, 0 :: real]] ! 0 ! 1\<bar> \<le> max_float \<and>
   in_range ([[1, 0 :: real]] ! 0 ! 1 * (- 1)) \<and> in_range ([[1, 0 :: real]] ! 0 ! 1 * 0) \<and>
   (\<exists>kpre noise.
      np_binop (\<lambda>x z. c_mul (c_of_fl (fl_of_real x)) z) [[1, 0]]
        [[(Fin 1, Fin 0), (Fin (- 1), Fin 0)]] = Inr kpre \<and>
      convert_mask_to_locations demo_env [[1, 0]] = Some [[Fin (- (1/2)), Fin (- (1/2))]] \<and>
      snd (load_before_noise demo_env ''cartesianR4'' None) =
        Inr ([[Fin 0, Fin 1]], [[Fin (- (1/2)), Fin (- (1/2))]], kpre) \<and>
      make_noise demo_env 1 kpre = Inr noise \<and>
      np_binop c_add kpre noise = Inr [[(Fin 2, Fin 0), (Fin 0, Fin 0)]] \<and>
      length kpre = 1 \<and> length (kpre ! 0) = 2 \<and>
      kpre ! 0 ! 1 = (Fin ([[1, 0]] ! 0 ! 1 * (- 1)), Fin ([[1, 0]] ! 0 ! 1 * 0)) \<and>
      kpre = [[(Fin 1, Fin 0), (Fin 0, Fin 0)]])"
proof -
  let ?mask = "[[1, 0 :: real]]"
  let ?f = "[[(Fin 1, Fin 0), (Fin (- 1), Fin 0)]]"
  let ?loc = "[[Fin (- (1/2)), Fin (- (1/2))]]"
  have sh: "ifftshift demo_env [[0, 1]] = Some ?mask" by (simp add: demo_env_def)
  have ft: "fft2 demo_env [[Fin 0, Fin 1]] = Some ?f"
    by (simp add: demo_env_def fl_sub_def small_floats)
  have rm: "rect ?mask" by (simp add: rect_def shape_def)
  have rf: "rect ?f" by (simp add: rect_def shape_def)
  have ss: "shape ?mask = shape ?f" by (simp add: shape_def)
  have mf: "\<bar>?mask ! 0 ! 1\<bar> \<le> max_float" by (rule max_float_small) simp
  have i1: "in_range (?mask ! 0 ! 1 * (- 1))" by (rule in_range_small) simp
  have i2: "in_range (?mask ! 0 ! 1 * 0)" by (rule in_range_small) simp
  from cartesian_kspace_is_masked_transform[OF demo_cartesian_full]
  obtain vars im vars' m mask f kpre noise where
    w: "real_mats demo_env ''Ref_babouin_NEX32.mat'' = Some vars" "vars ''im_ref'' = Some im"
       "real_mats demo_env ''mask_BrainPhantom512_R4.mat'' = Some vars'" "vars' ''mask'' = Some m"
       "ifftshift demo_env m = Some mask"
       "fft2 demo_env (l2_normalize (amap fl_of_real im)) = Some f"
       "np_binop (\<lambda>x z. c_mul (c_of_fl (fl_of_real x)) z) mask f = Inr kpre"
       "convert_mask_to_locations demo_env mask = Some ?loc"
       "snd (load_before_noise demo_env ''cartesianR4'' None) =
          Inr (l2_normalize (amap fl_of_real im), ?loc, kpre)"
       "make_noise demo_env 1 kpre = Inr noise"
       "np_binop c_add kpre noise = Inr [[(Fin 2, Fin 0), (Fin 0, Fin 0)]]"
       "rect mask \<and> rect f \<and> shape mask = shape f \<longrightarrow>
          length kpre = length mask \<and>
          (\<forall>i<length mask. length (kpre ! i) = length (mask ! i) \<and>
             (\<forall>j<length (mask ! i). \<forall>a b.
                f ! i ! j = (Fin a, Fin b) \<and> \<bar>mask ! i ! j\<bar> \<le> max_float \<and>
                in_range (mask ! i ! j * a) \<and> in_range (mask ! i ! j * b) \<longrightarrow>
                kpre ! i ! j = (Fin (mask ! i ! j * a), Fin (mask ! i ! j * b))))"
    by blast
  have im: "im = [[0, 2]]" using w(1,2) by (auto simp add: demo_env_def)
  have m: "m = [[0, 1]]" using w(3,4) by (auto simp add: demo_env_def)
  have mask: "mask = ?mask" using w(5) sh unfolding m by simp
  have f: "f = ?f" using w(6) ft unfolding im demo_l2 by simp
  have kp: "kpre = [[(Fin 1, Fin 0), (Fin 0, Fin 0)]]"
    using w(9) demo_cartesian_before by simp
  from w(12) rm rf ss have
    l: "length kpre = length ?mask"
       "\<forall>i<length ?mask. length (kpre ! i) = length (?mask ! i) \<and>
          (\<forall>j<length (?mask ! i). \<forall>a b.
             ?f ! i ! j = (Fin a, Fin b) \<and> \<bar>?mask ! i ! j\<bar> \<le> max_float \<and>
             in_range (?mask ! i ! j * a) \<and> in_range (?mask ! i ! j * b) \<longrightarrow>
             kpre ! i ! j = (Fin (?mask ! i ! j * a), Fin (?mask ! i ! j * b)))"
    unfolding mask f by blast+
  have l1: "length kpre = 1" using l(1) by simp
  have z: "(0::nat) < length ?mask" by simp
  from l(2) z have r0: "length (kpre ! 0) = length (?mask ! 0)"
    and e0: "\<forall>j<length (?mask ! 0). \<forall>a b.
             ?f ! 0 ! j = (Fin a, Fin b) \<and> \<bar>?mask ! 0 ! j\<bar> \<le> max_float \<and>
             in_range (?mask ! 0 ! j * a) \<and> in_range (?mask ! 0 ! j * b) \<longrightarrow>
             kpre ! 0 ! j = (Fin (?mask ! 0 ! j * a), Fin (?mask ! 0 ! j * b))"
    by blast+
  have l2: "length (kpre ! 0) = 2" using r0 by simp
  have o: "(1::nat) < length (?mask ! 0)" by simp
  have fe: "?f ! 0 ! 1 = (Fin (- 1), Fin 0)" by simp
  from e0 o fe mf i1 i2
  have en: "kpre ! 0 ! 1 = (Fin (?mask ! 0 ! 1 * (- 1)), Fin (?mask ! 0 ! 1 * 0))"
    by blast
  show ?thesis
    using demo_cartesian_full sh demo_l2 ft rm rf ss mf i1 i2
      w(7)[unfolded mask f] w(8)[unfolded mask] w(9)[unfolded im demo_l2] w(10) w(11)
      l1 l2 en kp
    by blast
qed

text \<open>
  C6, as the code has it. On every successful call, if the sum of the squares of the
  loaded reference array lies in the normal range of float64 (at least \<open>2 ^ -1022\<close> and
  below \<open>2 ^ 1023\<close>), the returned reference image is that array divided by its Euclidean
  norm (cast to complex), and its own Euclidean norm is 1.
\<close>

theorem reference_image_has_unit_norm:
  assumes "load_exbaboon_512_retrospection e sigma mask_type acc_factor =
             (t, Inr (ref, loc, kspace, bm, info))"
      and "real_mats e ''Ref_babouin_NEX32.mat'' = Some vars"
      and "vars ''im_ref'' = Some im"
      and "normal_range (\<Sum>x\<leftarrow>concat im. x * x)"
  shows "ref = amap c_of_fl (l2_normalize (amap fl_of_real im)) \<and>
         l2_normalize (amap fl_of_real im) =
           amap Fin (amap (\<lambda>x. x / sqrt (\<Sum>x\<leftarrow>concat im. x * x)) im) \<and>
         norm_complex ref = Fin 1"
proof -
  from load_success[OF assms(1)] obtain t0 ref0 kpre where
    a: "load_before_noise e mask_type acc_factor = (t0, Inr (ref0, loc, kpre))"
       "ref = amap c_of_fl ref0"
    by blast
  from load_before_noise_success[OF a(1)] assms(2,3)
  have r: "ref0 = l2_normalize (amap fl_of_real im)" by auto
  have "norm_complex ref = Fin 1"
    unfolding a(2) r norm_complex_of_real by (rule l2_normalize_unit[OF assms(4)])
  then show ?thesis using a(2) r l2_normalize_fin[OF assms(4)] by simp
qed

theorem reference_image_has_unit_norm_witness:
  "load_exbaboon_512_retrospection demo_env 1 ''radial'' (Some 8) =
     ([''Ref_babouin_NEX32.mat'', ''samples_radial_x8_64x3072.mat'',
       ''values_radial_x8_64x3072.mat'', ''Ref_N512_NEX32_mask.png''],
      Inr ([[(Fin 0, Fin 0), (Fin 1, Fin 0)]], [[Fin (1/4), Fin (- (1/2))]], [[(Fin 1, Fin 2)]],
           [[0, 0], [1, 0]],
           make_info 1 (Fin (20 * ln 2)) (Fin (20 * ln 2)) ''radial'' (Some 8))) \<and>
   real_mats demo_env ''Ref_babouin_NEX32.mat'' = Some [''im_ref'' \<mapsto> [[0, 2]]] \<and>
   [''im_ref'' \<mapsto> [[0, 2 :: real]]] ''im_ref'' = Some [[0, 2]] \<and>
   normal_range (\<Sum>x\<leftarrow>concat [[0, 2 :: real]]. x * x) \<and>
   [[(Fin 0, Fin 0), (Fin 1, Fin 0)]] = amap c_of_fl (l2_normalize (amap fl_of_real [[0, 2]])) \<and>
   norm_complex [[(Fin 0, Fin 0), (Fin 1, Fin 0)]] = Fin 1"
proof -
  have h2: "real_mats demo_env ''Ref_babouin_NEX32.mat'' = Some [''im_ref'' \<mapsto> [[0, 2]]]"
    by (simp add: demo_env_def)
  have h3: "[''im_ref'' \<mapsto> [[0, 2 :: real]]] ''im_ref'' = Some [[0, 2]]" by simp
  have h4: "normal_range (\<Sum>x\<leftarrow>concat [[0, 2 :: real]]. x * x)"
    by (rule normal_range_small) simp_all
  show ?thesis
    using reference_image_has_unit_norm[OF demo_full h2 h3 h4] demo_full h2 h3 h4 by blast
qed

text \<open>
  C6 in the words of the specification fails where the sum of squares overflows: a
  reference array with the two entries \<open>2 ^ 700\<close> has a nonzero norm, but
  \<open>np.linalg.norm\<close> returns \<open>inf\<close> for it, the division gives zeros, and the returned
  reference image has norm 0.
\<close>

theorem reference_image_overflow_not_unit_norm:
  "load_exbaboon_512_retrospection overflow_env 1 ''radial'' (Some 8) =
     ([''Ref_babouin_NEX32.mat'', ''samples_radial_x8_64x3072.mat'',
       ''values_radial_x8_64x3072.mat'', ''Ref_N512_NEX32_mask.png''],
      Inr ([[(Fin 0, Fin 0), (Fin 0, Fin 0)]], [[Fin (1/4), Fin (- (1/2))]], [[(Fin 1, Fin 2)]],
           [[0, 0], [1, 0]],
           make_info 1 (Fin (20 * ln 2)) (Fin (20 * ln 2)) ''radial'' (Some 8))) \<and>
   real_mats overflow_env ''Ref_babouin_NEX32.mat'' = Some [''im_ref'' \<mapsto> [[2 ^ 700, 2 ^ 700]]] \<and>
   amap fl_of_real [[2 ^ 700, 2 ^ 700]] = [[Fin (2 ^ 700), Fin (2 ^ 700)]] \<and>
   (2::real) ^ 700 \<noteq> 0 \<and>
   norm_real (amap fl_of_real [[2 ^ 700, 2 ^ 700]]) = PInf \<and>
   norm_real (amap fl_of_real [[2 ^ 700, 2 ^ 700]]) \<noteq> Fin 0 \<and>
   norm_complex [[(Fin 0, Fin 0), (Fin 0, Fin 0)]] = Fin 0 \<and>
   norm_complex [[(Fin 0, Fin 0), (Fin 0, Fin 0)]] \<noteq> Fin 1"
proof -
  have r: "real_mats overflow_env ''Ref_babouin_NEX32.mat'' =
             Some [''im_ref'' \<mapsto> [[2 ^ 700, 2 ^ 700]]]"
    by (simp add: overflow_env_def)
  have b: "\<bar>(2::real) ^ 700\<bar> \<le> max_float"
  proof -
    have "(2::real) ^ 700 \<le> 2 ^ 1023" by (rule power_increasing) simp_all
    moreover have "(2::real) ^ 1023 \<le> max_float"
      unfolding max_float_def by simp
    ultimately show ?thesis by simp
  qed
  have a: "amap fl_of_real [[2 ^ 700, 2 ^ 700]] = [[Fin (2 ^ 700), Fin (2 ^ 700)]]"
    unfolding amap_def using fl_of_real_id[OF b] by simp
  have n: "norm_complex [[(Fin 0, Fin 0), (Fin 0, Fin 0)]] = Fin 0"
    by (simp add: norm_complex_def fl_sum_def)
  have p: "norm_real (amap fl_of_real [[2 ^ 700, 2 ^ 700]]) \<noteq> Fin 0"
    by (simp only: overflow_norm fl.distinct simp_thms)
  have q: "norm_complex [[(Fin 0, Fin 0), (Fin 0, Fin 0)]] \<noteq> Fin 1"
    unfolding n by simp
  have z: "(2::real) ^ 700 \<noteq> 0" by (rule power_not_zero) simp
  show ?thesis using overflow_full r a z overflow_norm p n q by blast
qed
text \<open>
  C7. On a successful call with \<open>sigma = 0\<close> every entry of the noise array is zero, the
  entry \<open>sigma\<close> of the dictionary is 0.0, and the returned k-space data is the data before
  noise (an array being rectangular).
\<close>

theorem zero_sigma_adds_no_noise:
  assumes "load_exbaboon_512_retrospection e 0 mask_type acc_factor =
             (t, Inr (ref, loc, kspace, bm, info))"
  shows "\<exists>t0 ref0 kpre noise.
           load_before_noise e mask_type acc_factor = (t0, Inr (ref0, loc, kpre)) \<and>
           make_noise e 0 kpre = Inr noise \<and>
           (\<forall>z\<in>set (concat noise). z = (Fin 0, Fin 0)) \<and>
           shape noise = shape kpre \<and>
           (rect kpre \<longrightarrow> kspace = kpre) \<and>
           info ''sigma'' = Some (PyFloat (Fin 0))"
proof -
  from load_success[OF assms] obtain t0 ref0 kpre noise peak where
    a: "load_before_noise e mask_type acc_factor = (t0, Inr (ref0, loc, kpre))"
       "make_noise e 0 kpre = Inr noise" "np_binop c_add kpre noise = Inr kspace"
       "info = make_info 0 (snr_of kpre noise) (psnr_of peak noise) mask_type acc_factor"
    by blast
  have n: "noise = zeros (shape kpre)" using a(2) by (simp add: make_noise_zero)
  have z: "\<forall>z\<in>set (concat noise). z = (Fin 0, Fin 0)"
    unfolding n using zeros_entries by blast
  have sh: "shape noise = shape kpre"
    unfolding n by (cases kpre) (simp_all add: zeros_def shape_def)
  have k: "kspace = kpre" if "rect kpre"
    using add_zeros[OF that load_before_noise_valid[OF a(1)]] a(3) unfolding n by simp
  have s: "info ''sigma'' = Some (PyFloat (Fin 0))"
    unfolding a(4) by (simp only: make_info_lookup fl_of_real_zero)
  show ?thesis using a(1,2) z sh k s by blast
qed

theorem zero_sigma_adds_no_noise_witness:
  "load_exbaboon_512_retrospection demo_env 0 ''radial'' (Some 8) =
     ([''Ref_babouin_NEX32.mat'', ''samples_radial_x8_64x3072.mat'',
       ''values_radial_x8_64x3072.mat'', ''Ref_N512_NEX32_mask.png''],
      Inr ([[(Fin 0, Fin 0), (Fin 1, Fin 0)]], [[Fin (1/4), Fin (- (1/2))]], [[(Fin 0, Fin 2)]],
           [[0, 0], [1, 0]],
           make_info 0 PInf PInf ''radial'' (Some 8))) \<and>
   rect [[(Fin 0, Fin 2)]] \<and>
   snd (load_before_noise demo_env ''radial'' (Some 8)) =
     Inr ([[Fin 0, Fin 1]], [[Fin (1/4), Fin (- (1/2))]], [[(Fin 0, Fin 2)]]) \<and>
   make_noise demo_env 0 [[(Fin 0, Fin 2)]] = Inr [[(Fin 0, Fin 0)]] \<and>
   make_info 0 PInf PInf ''radial'' (Some 8) ''sigma'' = Some (PyFloat (Fin 0))"
proof -
  from zero_sigma_adds_no_noise[OF demo_zero_full] obtain t0 ref0 kpre noise where
    w: "load_before_noise demo_env ''radial'' (Some 8) =
          (t0, Inr (ref0, [[Fin (1/4), Fin (- (1/2))]], kpre))"
       "make_noise demo_env 0 kpre = Inr noise"
       "rect kpre \<longrightarrow> [[(Fin 0, Fin 2)]] = kpre"
       "make_info 0 PInf PInf ''radial'' (Some 8) ''sigma'' = Some (PyFloat (Fin 0))"
    by blast
  have kp: "kpre = [[(Fin 0, Fin 2)]]" using w(1) by (simp add: demo_before_radial)
  have r: "rect [[(Fin 0, Fin 2)]]" by (simp add: rect_def shape_def)
  have n: "make_noise demo_env 0 [[(Fin 0, Fin 2)]] = Inr [[(Fin 0, Fin 0)]]"
    by (simp add: make_noise_zero zeros_def shape_def)
  show ?thesis using demo_zero_full r n w(4) by (simp add: demo_before_radial)
qed

end
